theory Spec2Isabelle
  imports Complex_Main
begin

section \<open>The delivery controller of Lab 1\<close>

text \<open>
  This theory embeds \<^verbatim>\<open>ASimpleAIController\<close> (file
  \<^verbatim>\<open>Lab_1/Source/Lab_1/SimpleAIController.cpp\<close>): its constructor and its
  \<^verbatim>\<open>Tick\<close> method. The base class that answers the queries and carries out the
  commands is not part of the sources; every call into it is a field of the records
  \<open>World\<close> (queries) and \<open>Actions\<close> (commands), so that the theorems hold for every
  behaviour of the base class.

  Numbers: the \<^verbatim>\<open>float\<close> values that the base class returns (distances, times,
  the speed) are finite numbers, modelled as \<open>real\<close>; the controller compares them
  with \<^verbatim>\<open><\<close>, \<^verbatim>\<open>>\<close> and \<^verbatim>\<open>==\<close>, which on finite floats are the
  comparisons of the reals. The one place where the controller computes with floats is
  line 76, a quotient and a difference: their results are rounded and can be infinite or
  NaN, so that arithmetic is not modelled by the arithmetic of \<open>real\<close> but taken as a
  parameter (type \<open>float32\<close>, fields \<open>FloatDivide\<close> and \<open>FloatSubtract\<close> below), and the
  theorems hold for every float arithmetic. The \<^verbatim>\<open>int32\<close> order and house numbers
  are \<open>int\<close>; the controller only copies and compares them and uses house numbers as
  indices. Loop counters are \<open>nat\<close>.
\<close>

subsection \<open>Data\<close>

type_synonym FVector = "real \<times> real \<times> real"

record FPizzaOrder =
  OrderNumber :: int
  HouseNumber :: int

text \<open>
  The member variables of the controller. \<^verbatim>\<open>CurrentDestination\<close> is an
  \<^verbatim>\<open>FVector\<close> that the constructor does not initialise; \<open>None\<close> stands for
  "never assigned", \<open>Some p\<close> for the last point assigned. \<^verbatim>\<open>terribleStatus\<close> is
  the urgency level: 0 is Normal, 1 is Flagged, 2 is Committed. \<^verbatim>\<open>bDeliveringOrder\<close>
  is the delivery phase: false is Idle, true is EnRoute. \<^verbatim>\<open>CurrentOrderNumber\<close> is
  the active order, \<open>-1\<close> when there is none.
\<close>

record AgentState =
  bDeliveringOrder :: bool
  CurrentOrderNumber :: int
  CurrentDestination :: "FVector option"
  terribleStatus :: int

text \<open>
  The result of a float operation: a finite number, an infinity, or NaN.
  \<open>floatLess x y\<close> is \<^verbatim>\<open>x < y\<close> for such a result \<open>x\<close> and a finite \<open>y\<close>: false for
  NaN, as every comparison with NaN is.
\<close>

datatype float32 = Finite real | PlusInfinity | MinusInfinity | NaN

fun floatLess :: "float32 \<Rightarrow> real \<Rightarrow> bool" where
  "floatLess (Finite x) y = (x < y)"
| "floatLess PlusInfinity y = False"
| "floatLess MinusInfinity y = True"
| "floatLess NaN y = False"

text \<open>
  What one tick finds around it: the answers of the base class to the queries, and the
  float arithmetic of the machine for line 76: \<open>FloatDivide w x y\<close> is the float
  \<^verbatim>\<open>x / y\<close> and \<open>FloatSubtract w x q\<close> the float \<^verbatim>\<open>x - q\<close>, for finite \<open>x\<close>, \<open>y\<close>
  and a float result \<open>q\<close>.
\<close>

record World =
  GetPizzaOrders :: "FPizzaOrder list"
  GetHouseLocations :: "FVector list"
  GetDistanceToDestination :: "FVector \<Rightarrow> real"
  GetHouseTimeLeft :: "int \<Rightarrow> real"
  WaitsHousePizzaDelivery :: "int \<Rightarrow> bool"
  GetCharacterMaxSpeed :: real
  GetPizzaAmount :: int
  FloatDivide :: "real \<Rightarrow> real \<Rightarrow> float32"
  FloatSubtract :: "real \<Rightarrow> float32 \<Rightarrow> float32"

text \<open>
  The answers of the base class to the commands of one tick. A delivery changes the world
  (the order list, the waiting houses), and \<^verbatim>\<open>Tick\<close> queries the world again
  after a successful delivery: \<open>TryDeliverPizza\<close> returns its boolean result together
  with the world as the queries see it afterwards.
\<close>

record Actions =
  TryGrabPizza :: bool
  TryDeliverPizza :: "int \<Rightarrow> bool \<times> World"

text \<open>The commands a tick issues, in the order of the calls.\<close>

datatype Call =
  SetNewMoveDestination FVector
| TryGrabPizzaCall
| TryDeliverPizzaCall int

text \<open>
  \<open>IndexOutOfBounds\<close>: an index into a \<^verbatim>\<open>TArray\<close> outside its range.
  \<open>UninitialisedDestination\<close>: \<^verbatim>\<open>CurrentDestination\<close> read before any assignment.
\<close>

datatype error = IndexOutOfBounds | UninitialisedDestination

subsection \<open>The constructor\<close>

definition init_state :: AgentState where
  "init_state =
     \<lparr>bDeliveringOrder = False, CurrentOrderNumber = - 1,
      CurrentDestination = None, terribleStatus = 0\<rparr>"

subsection \<open>Array accesses\<close>

text \<open>\<^verbatim>\<open>HouseLocations[h]\<close> for an \<^verbatim>\<open>int32\<close> index \<open>h\<close>.\<close>

definition lookupLocation :: "FVector list \<Rightarrow> int \<Rightarrow> error + FVector" where
  "lookupLocation locs h =
     (if 0 \<le> h \<and> h < int (length locs) then Inr (locs ! nat h) else Inl IndexOutOfBounds)"

text \<open>\<^verbatim>\<open>Orders[i]\<close>.\<close>

definition lookupOrder :: "FPizzaOrder list \<Rightarrow> nat \<Rightarrow> error + FPizzaOrder" where
  "lookupOrder ords i = (if i < length ords then Inr (ords ! i) else Inl IndexOutOfBounds)"

text \<open>\<^verbatim>\<open>GetDistanceToDestination(HouseLocations[o.HouseNumber])\<close>.\<close>

definition houseDistance :: "World \<Rightarrow> FVector list \<Rightarrow> FPizzaOrder \<Rightarrow> error + real" where
  "houseDistance w locs ord =
     (case lookupLocation locs (HouseNumber ord) of
        Inl e \<Rightarrow> Inl e
      | Inr p \<Rightarrow> Inr (GetDistanceToDestination w p))"

text \<open>\<^verbatim>\<open>GetHouseTimeLeft(o.HouseNumber)\<close>: a call, not an array access.\<close>

definition houseTimeLeft :: "World \<Rightarrow> FPizzaOrder \<Rightarrow> error + real" where
  "houseTimeLeft w ord = Inr (GetHouseTimeLeft w (HouseNumber ord))"

subsection \<open>The loops\<close>

text \<open>
  The two selection loops of the Idle branch (lines 56 to 62 and 66 to 72) have one shape:
  \<^verbatim>\<open>for (i = 0; i < Orders.Num(); ++i) { cur = key(Orders[i]); if (cur < best) { best = cur; bestIndex = i; } }\<close>.
  \<open>scanMin key os i (best, bestIndex)\<close> runs the loop over the remaining orders \<open>os\<close>,
  the first of which has index \<open>i\<close>.
\<close>

fun scanMin ::
  "(FPizzaOrder \<Rightarrow> error + real) \<Rightarrow> FPizzaOrder list \<Rightarrow> nat \<Rightarrow> real \<times> nat \<Rightarrow> error + real \<times> nat"
where
  "scanMin key [] i best = Inr best"
| "scanMin key (ord # os) i (bestVal, bestIdx) =
     (case key ord of
        Inl e \<Rightarrow> Inl e
      | Inr cur \<Rightarrow>
          if cur < bestVal then scanMin key os (Suc i) (cur, i)
          else scanMin key os (Suc i) (bestVal, bestIdx))"

text \<open>
  Lines 54 to 62 and 64 to 72: the scan starts from the key of \<^verbatim>\<open>Orders[0]\<close>, with
  index 0, and the loop runs from index 0.
\<close>

definition selectMin ::
  "(FPizzaOrder \<Rightarrow> error + real) \<Rightarrow> FPizzaOrder list \<Rightarrow> error + real \<times> nat"
where
  "selectMin key ords =
     (case lookupOrder ords 0 of
        Inl e \<Rightarrow> Inl e
      | Inr first \<Rightarrow>
          (case key first of
             Inl e \<Rightarrow> Inl e
           | Inr v0 \<Rightarrow> scanMin key ords 0 (v0, 0)))"

definition closestScan :: "World \<Rightarrow> FVector list \<Rightarrow> FPizzaOrder list \<Rightarrow> error + real \<times> nat" where
  "closestScan w locs ords = selectMin (houseDistance w locs) ords"

definition terribleScan :: "World \<Rightarrow> FPizzaOrder list \<Rightarrow> error + real \<times> nat" where
  "terribleScan w ords = selectMin (houseTimeLeft w) ords"

text \<open>
  Lines 33 to 37, the loop after a successful delivery: true when it reaches the
  assignment \<^verbatim>\<open>terribleStatus = 2\<close>. The array access is made only for a house that
  waits for a delivery (\<^verbatim>\<open>&&\<close> evaluates its right operand only then), and the loop
  ends at the first match.
\<close>

fun rescan :: "World \<Rightarrow> FVector list \<Rightarrow> real \<Rightarrow> FPizzaOrder list \<Rightarrow> error + bool" where
  "rescan w locs Distance [] = Inr False"
| "rescan w locs Distance (ord # os) =
     (if WaitsHousePizzaDelivery w (HouseNumber ord) then
        (case houseDistance w locs ord of
           Inl e \<Rightarrow> Inl e
         | Inr d \<Rightarrow> if Distance = d then Inr True else rescan w locs Distance os)
      else rescan w locs Distance os)"

subsection \<open>The escalation test\<close>

text \<open>
  Line 76, left operand: \<^verbatim>\<open>burnestTime - distance / GetCharacterMaxSpeed() < 5.0f\<close>:
  the float quotient, then the float difference, then the comparison with 5. The
  quotient and the difference are the machine's (rounded; a division by zero does not
  trap and gives an infinity or NaN).
\<close>

definition burnsSoon :: "World \<Rightarrow> real \<Rightarrow> real \<Rightarrow> real \<Rightarrow> bool" where
  "burnsSoon w burnestTime distance speed =
     floatLess (FloatSubtract w burnestTime (FloatDivide w distance speed)) 5"

text \<open>
  Lines 54 to 79: the order in the local variable \<^verbatim>\<open>Order\<close> and the content of
  \<^verbatim>\<open>terribleStatus\<close> when line 81 is reached.
\<close>

definition chooseOrder ::
  "World \<Rightarrow> AgentState \<Rightarrow> FVector list \<Rightarrow> FPizzaOrder list \<Rightarrow> error + FPizzaOrder \<times> int"
where
  "chooseOrder w s locs ords =
     (case closestScan w locs ords of
        Inl e \<Rightarrow> Inl e
      | Inr (closestDistance, closestOrder) \<Rightarrow>
     (case terribleScan w ords of
        Inl e \<Rightarrow> Inl e
      | Inr (burnestTime, terribleOrder) \<Rightarrow>
     (case lookupOrder ords closestOrder of
        Inl e \<Rightarrow> Inl e
      | Inr Order \<Rightarrow>
     (case lookupOrder ords terribleOrder of
        Inl e \<Rightarrow> Inl e
      | Inr terrible \<Rightarrow>
     (case houseDistance w locs terrible of
        Inl e \<Rightarrow> Inl e
      | Inr d \<Rightarrow>
          if burnsSoon w burnestTime d (GetCharacterMaxSpeed w) \<and> terribleStatus s \<noteq> 2
          then Inr (terrible, 1)
          else Inr (Order, terribleStatus s))))))"

subsection \<open>Tick\<close>

text \<open>Lines 21 to 23: the promotion of the urgency level near the destination.\<close>

definition promoteOnArrival :: "real \<Rightarrow> AgentState \<Rightarrow> AgentState" where
  "promoteOnArrival Distance s =
     (if terribleStatus s = 1 \<and> Distance < 300 then s\<lparr>terribleStatus := 2\<rparr> else s)"

text \<open>
  Lines 24 to 42: the delivery attempt, from the state \<open>s1\<close> that lines 21 to 23 leave,
  with the distance measured at line 16.
\<close>

definition attemptDelivery ::
  "World \<Rightarrow> Actions \<Rightarrow> FVector \<Rightarrow> real \<Rightarrow> AgentState \<Rightarrow> error + AgentState \<times> Call list"
where
  "attemptDelivery w a dest Distance s1 =
     (let n = CurrentOrderNumber s1;
          (bDeliveredOrder, w') = TryDeliverPizza a n
      in
        if bDeliveredOrder then
          let s2 = s1\<lparr>bDeliveringOrder := False, CurrentOrderNumber := - 1,
                     terribleStatus := 0\<rparr>
          in
            (case rescan w' (GetHouseLocations w') Distance (GetPizzaOrders w') of
               Inl e \<Rightarrow> Inl e
             | Inr found \<Rightarrow>
                 Inr (if found then s2\<lparr>terribleStatus := 2\<rparr> else s2,
                      [TryDeliverPizzaCall n]))
        else Inr (s1, [TryDeliverPizzaCall n, SetNewMoveDestination dest]))"

text \<open>Lines 15 to 43: the branch taken while \<^verbatim>\<open>bDeliveringOrder\<close> is true.\<close>

definition tickDelivering :: "World \<Rightarrow> Actions \<Rightarrow> AgentState \<Rightarrow> error + AgentState \<times> Call list" where
  "tickDelivering w a s =
     (case CurrentDestination s of
        None \<Rightarrow> Inl UninitialisedDestination
      | Some dest \<Rightarrow>
          let Distance = GetDistanceToDestination w dest in
          if Distance > 300 then Inr (s, [SetNewMoveDestination dest])
          else attemptDelivery w a dest Distance (promoteOnArrival Distance s))"

text \<open>Lines 45 to 95: the branch taken while \<^verbatim>\<open>bDeliveringOrder\<close> is false.\<close>

definition tickIdle :: "World \<Rightarrow> Actions \<Rightarrow> AgentState \<Rightarrow> error + AgentState \<times> Call list" where
  "tickIdle w a s =
     (let Orders = GetPizzaOrders w in
      if length Orders = 0 then Inr (s, [])
      else
        let HouseLocations = GetHouseLocations w in
        (case chooseOrder w s HouseLocations Orders of
           Inl e \<Rightarrow> Inl e
         | Inr (Order, status) \<Rightarrow>
             let s1 = s\<lparr>terribleStatus := status\<rparr> in
             if GetPizzaAmount w = 0 \<and> \<not> TryGrabPizza a then Inr (s1, [TryGrabPizzaCall])
             else
               (case lookupLocation HouseLocations (HouseNumber Order) of
                  Inl e \<Rightarrow> Inl e
                | Inr HouseLocation \<Rightarrow>
                    Inr (s1\<lparr>bDeliveringOrder := True,
                             CurrentOrderNumber := OrderNumber Order,
                             CurrentDestination := Some HouseLocation\<rparr>,
                         (if GetPizzaAmount w = 0 then [TryGrabPizzaCall] else [])
                         @ [SetNewMoveDestination HouseLocation]))))"

definition Tick :: "World \<Rightarrow> Actions \<Rightarrow> AgentState \<Rightarrow> error + AgentState \<times> Call list" where
  "Tick w a s = (if bDeliveringOrder s then tickDelivering w a s else tickIdle w a s)"

subsection \<open>Vocabulary of the properties\<close>

text \<open>
  \<open>firstMinimum vs i\<close>: \<open>i\<close> is the first index at which the list \<open>vs\<close> takes its
  least value.
\<close>

definition firstMinimum :: "real list \<Rightarrow> nat \<Rightarrow> bool" where
  "firstMinimum vs i =
     (i < length vs \<and> list_all (\<lambda>v. vs ! i \<le> v) vs \<and> list_all (\<lambda>v. vs ! i < v) (take i vs))"

text \<open>Every order's house number is an index of the house-location table.\<close>

definition validOrders :: "FVector list \<Rightarrow> FPizzaOrder list \<Rightarrow> bool" where
  "validOrders locs ords =
     list_all (\<lambda>ord. 0 \<le> HouseNumber ord \<and> HouseNumber ord < int (length locs)) ords"

definition validWorld :: "World \<Rightarrow> bool" where
  "validWorld w = validOrders (GetHouseLocations w) (GetPizzaOrders w)"

text \<open>The distance to an order's house and the time left at it, for a valid house number.\<close>

definition distanceOf :: "World \<Rightarrow> FVector list \<Rightarrow> FPizzaOrder \<Rightarrow> real" where
  "distanceOf w locs ord = GetDistanceToDestination w (locs ! nat (HouseNumber ord))"

definition timeLeftOf :: "World \<Rightarrow> FPizzaOrder \<Rightarrow> real" where
  "timeLeftOf w ord = GetHouseTimeLeft w (HouseNumber ord)"

text \<open>
  Some pending order's house still waits for its delivery and lies at exactly the
  distance \<open>Distance\<close>.
\<close>

definition coLocated :: "World \<Rightarrow> real \<Rightarrow> bool" where
  "coLocated w Distance =
     list_ex (\<lambda>ord. WaitsHousePizzaDelivery w (HouseNumber ord) \<and>
                     Distance = distanceOf w (GetHouseLocations w) ord) (GetPizzaOrders w)"


text \<open>Several ticks in a row, each with its own world and command results.\<close>

fun run :: "(World \<times> Actions) list \<Rightarrow> AgentState \<Rightarrow> error + AgentState" where
  "run [] s = Inr s"
| "run ((w, a) # ticks) s =
     (case Tick w a s of Inl e \<Rightarrow> Inl e | Inr (s', calls) \<Rightarrow> run ticks s')"

text \<open>
  The states of the controller after any number of ticks from the constructor's state,
  in worlds that satisfy \<open>P\<close>.
\<close>

inductive reachable :: "(World \<Rightarrow> bool) \<Rightarrow> AgentState \<Rightarrow> bool" for P where
  reachable_init: "reachable P init_state"
| reachable_tick: "reachable P s \<Longrightarrow> P w \<Longrightarrow> Tick w a s = Inr (s', calls) \<Longrightarrow> reachable P s'"

subsection \<open>Example worlds\<close>

text \<open>
  Four houses; the distance to a point is its first coordinate, so houses 0 and 2 lie at
  the same distance 100.
\<close>

definition village :: "FVector list" where
  "village = [(100, 0, 0), (200, 0, 0), (100, 5, 0), (300, 0, 0)]"

definition order7 :: FPizzaOrder where
  "order7 = \<lparr>OrderNumber = 7, HouseNumber = 0\<rparr>"

definition order8 :: FPizzaOrder where
  "order8 = \<lparr>OrderNumber = 8, HouseNumber = 1\<rparr>"

definition order9 :: FPizzaOrder where
  "order9 = \<lparr>OrderNumber = 9, HouseNumber = 2\<rparr>"

definition order10 :: FPizzaOrder where
  "order10 = \<lparr>OrderNumber = 10, HouseNumber = 4\<rparr>"

text \<open>
  A float arithmetic for the examples: the quotient and the difference without rounding
  error, and the infinities and NaN of a division by zero. The float arithmetic of a
  machine agrees with it wherever the exact result is a float; in the example worlds
  every quotient and difference is a small whole number.
\<close>

definition exactDivide :: "real \<Rightarrow> real \<Rightarrow> float32" where
  "exactDivide x y =
     (if y \<noteq> 0 then Finite (x / y)
      else if 0 < x then PlusInfinity else if x < 0 then MinusInfinity else NaN)"

fun exactSubtract :: "real \<Rightarrow> float32 \<Rightarrow> float32" where
  "exactSubtract x (Finite q) = Finite (x - q)"
| "exactSubtract x PlusInfinity = MinusInfinity"
| "exactSubtract x MinusInfinity = PlusInfinity"
| "exactSubtract x NaN = NaN"

text \<open>Orders 7 and 8 pending, a minute left at every house, one pizza in hand.\<close>

definition calmWorld :: World where
  "calmWorld =
     \<lparr>GetPizzaOrders = [order7, order8], GetHouseLocations = village,
      GetDistanceToDestination = fst, GetHouseTimeLeft = (\<lambda>h. 60),
      WaitsHousePizzaDelivery = (\<lambda>h. True), GetCharacterMaxSpeed = 10,
      GetPizzaAmount = 1, FloatDivide = exactDivide, FloatSubtract = exactSubtract\<rparr>"

text \<open>House 1 (order 8, distance 200, 20 seconds at speed 10) has 20 seconds left.\<close>

definition urgentWorld :: World where
  "urgentWorld = calmWorld\<lparr>GetHouseTimeLeft := (\<lambda>h. if h = 1 then 20 else 60)\<rparr>"

definition hungryWorld :: World where
  "hungryWorld = urgentWorld\<lparr>GetPizzaAmount := 0\<rparr>"

text \<open>After order 7 is delivered: only order 8 is left, or only order 9.\<close>

definition afterSeven :: World where
  "afterSeven = calmWorld\<lparr>GetPizzaOrders := [order8]\<rparr>"

definition afterSevenTwin :: World where
  "afterSevenTwin = calmWorld\<lparr>GetPizzaOrders := [order9]\<rparr>"

text \<open>
  Three orders at distances 200, 200 and 100; and three at distances 200, 100 and 100.
\<close>

definition tiedFarWorld :: World where
  "tiedFarWorld =
     calmWorld\<lparr>GetPizzaOrders := [order8, order10, order7],
               GetHouseLocations := village @ [(200, 7, 0)]\<rparr>"

definition tiedNearWorld :: World where
  "tiedNearWorld = calmWorld\<lparr>GetPizzaOrders := [order8, order7, order9]\<rparr>"

text \<open>Both commands fail; the pickup succeeds; the pickup and the delivery succeed.\<close>

definition refusing :: Actions where
  "refusing = \<lparr>TryGrabPizza = False, TryDeliverPizza = (\<lambda>n. (False, calmWorld))\<rparr>"

definition grabbing :: Actions where
  "grabbing = \<lparr>TryGrabPizza = True, TryDeliverPizza = (\<lambda>n. (False, calmWorld))\<rparr>"

definition delivering :: "World \<Rightarrow> Actions" where
  "delivering w' = \<lparr>TryGrabPizza = True, TryDeliverPizza = (\<lambda>n. (True, w'))\<rparr>"

definition enRoute :: "int \<Rightarrow> FVector \<Rightarrow> int \<Rightarrow> AgentState" where
  "enRoute n dest status =
     \<lparr>bDeliveringOrder = True, CurrentOrderNumber = n,
      CurrentDestination = Some dest, terribleStatus = status\<rparr>"

definition idle :: "FVector option \<Rightarrow> int \<Rightarrow> AgentState" where
  "idle dest status =
     \<lparr>bDeliveringOrder = False, CurrentOrderNumber = - 1,
      CurrentDestination = dest, terribleStatus = status\<rparr>"

text \<open>No pending order carries \<open>-1\<close>, the number that stands for "no order".\<close>

definition numbered :: "World \<Rightarrow> bool" where
  "numbered w = list_all (\<lambda>ord. OrderNumber ord \<noteq> - 1) (GetPizzaOrders w)"

section \<open>Properties\<close>

subsection \<open>The loops\<close>

lemma firstMinimum_iff:
  "firstMinimum vs i =
     (i < length vs \<and> (\<forall>j<length vs. vs ! i \<le> vs ! j) \<and> (\<forall>j<i. vs ! i < vs ! j))"
proof (cases "i < length vs")
  case True
  then have "list_all (\<lambda>v. vs ! i < v) (take i vs) = (\<forall>j<i. vs ! i < vs ! j)"
    by (simp add: list_all_length)
  then show ?thesis by (simp add: firstMinimum_def list_all_length)
next
  case False
  then show ?thesis by (simp add: firstMinimum_def)
qed

lemma scanMin_total:
  assumes "\<forall>ord\<in>set os. key ord = Inr (f ord)"
  shows "\<exists>rv ri. scanMin key os i (bv, bi) = Inr (rv, ri) \<and>
           ((rv = bv \<and> ri = bi \<and> (\<forall>k<length os. bv \<le> f (os ! k))) \<or>
            (\<exists>k<length os. ri = i + k \<and> rv = f (os ! k) \<and> rv < bv \<and>
               (\<forall>j<length os. rv \<le> f (os ! j)) \<and> (\<forall>j<k. rv < f (os ! j))))"
  using assms
proof (induction os arbitrary: i bv bi)
  case Nil
  then show ?case by simp
next
  case (Cons ord os)
  have key: "key ord = Inr (f ord)" using Cons.prems by simp
  have rest: "\<forall>x\<in>set os. key x = Inr (f x)" using Cons.prems by simp
  show ?case
  proof (cases "f ord < bv")
    case True
    from Cons.IH[OF rest, of "Suc i" "f ord" i]
    obtain rv ri where r: "scanMin key os (Suc i) (f ord, i) = Inr (rv, ri)"
      and d: "(rv = f ord \<and> ri = i \<and> (\<forall>k<length os. f ord \<le> f (os ! k))) \<or>
            (\<exists>k<length os. ri = Suc i + k \<and> rv = f (os ! k) \<and> rv < f ord \<and>
               (\<forall>j<length os. rv \<le> f (os ! j)) \<and> (\<forall>j<k. rv < f (os ! j)))"
      by blast
    have eq: "scanMin key (ord # os) i (bv, bi) = Inr (rv, ri)"
      using key True r by simp
    from d show ?thesis
    proof
      assume a: "rv = f ord \<and> ri = i \<and> (\<forall>k<length os. f ord \<le> f (os ! k))"
      have "\<forall>j<length (ord # os). rv \<le> f ((ord # os) ! j)"
        using a by (auto simp: nth_Cons split: nat.splits)
      then have "\<exists>k<length (ord # os). ri = i + k \<and> rv = f ((ord # os) ! k) \<and> rv < bv \<and>
               (\<forall>j<length (ord # os). rv \<le> f ((ord # os) ! j)) \<and> (\<forall>j<k. rv < f ((ord # os) ! j))"
        using a True by (intro exI[of _ 0]) simp
      then show ?thesis using eq by blast
    next
      assume "\<exists>k<length os. ri = Suc i + k \<and> rv = f (os ! k) \<and> rv < f ord \<and>
               (\<forall>j<length os. rv \<le> f (os ! j)) \<and> (\<forall>j<k. rv < f (os ! j))"
      then obtain k where k: "k < length os" "ri = Suc i + k" "rv = f (os ! k)" "rv < f ord"
        "\<forall>j<length os. rv \<le> f (os ! j)" "\<forall>j<k. rv < f (os ! j)" by blast
      have 1: "\<forall>j<length (ord # os). rv \<le> f ((ord # os) ! j)"
        using k by (auto simp: nth_Cons split: nat.splits)
      have 2: "\<forall>j<Suc k. rv < f ((ord # os) ! j)"
        using k by (auto simp: nth_Cons split: nat.splits)
      have "Suc k < length (ord # os) \<and> ri = i + Suc k \<and> rv = f ((ord # os) ! Suc k) \<and> rv < bv"
        using k True by simp
      then show ?thesis using eq 1 2 by blast
    qed
  next
    case False
    from Cons.IH[OF rest, of "Suc i" bv bi]
    obtain rv ri where r: "scanMin key os (Suc i) (bv, bi) = Inr (rv, ri)"
      and d: "(rv = bv \<and> ri = bi \<and> (\<forall>k<length os. bv \<le> f (os ! k))) \<or>
            (\<exists>k<length os. ri = Suc i + k \<and> rv = f (os ! k) \<and> rv < bv \<and>
               (\<forall>j<length os. rv \<le> f (os ! j)) \<and> (\<forall>j<k. rv < f (os ! j)))"
      by blast
    have eq: "scanMin key (ord # os) i (bv, bi) = Inr (rv, ri)"
      using key False r by simp
    from d show ?thesis
    proof
      assume a: "rv = bv \<and> ri = bi \<and> (\<forall>k<length os. bv \<le> f (os ! k))"
      have "\<forall>k<length (ord # os). bv \<le> f ((ord # os) ! k)"
        using a False by (auto simp: nth_Cons split: nat.splits)
      then show ?thesis using eq a by blast
    next
      assume "\<exists>k<length os. ri = Suc i + k \<and> rv = f (os ! k) \<and> rv < bv \<and>
               (\<forall>j<length os. rv \<le> f (os ! j)) \<and> (\<forall>j<k. rv < f (os ! j))"
      then obtain k where k: "k < length os" "ri = Suc i + k" "rv = f (os ! k)" "rv < bv"
        "\<forall>j<length os. rv \<le> f (os ! j)" "\<forall>j<k. rv < f (os ! j)" by blast
      have 1: "\<forall>j<length (ord # os). rv \<le> f ((ord # os) ! j)"
        using k False by (auto simp: nth_Cons split: nat.splits)
      have 2: "\<forall>j<Suc k. rv < f ((ord # os) ! j)"
        using k False by (auto simp: nth_Cons split: nat.splits)
      have "Suc k < length (ord # os) \<and> ri = i + Suc k \<and> rv = f ((ord # os) ! Suc k) \<and> rv < bv"
        using k by simp
      then show ?thesis using eq 1 2 by blast
    qed
  qed
qed

lemma selectMin_firstMinimum:
  assumes "ords \<noteq> []" and "\<forall>ord\<in>set ords. key ord = Inr (f ord)"
  shows "\<exists>i. selectMin key ords = Inr (f (ords ! i), i) \<and> firstMinimum (map f ords) i"
proof -
  have first: "lookupOrder ords 0 = Inr (ords ! 0)" "key (ords ! 0) = Inr (f (ords ! 0))"
    using assms by (simp_all add: lookupOrder_def)
  from scanMin_total[OF assms(2), of 0 "f (ords ! 0)" 0]
  obtain rv ri where r: "scanMin key ords 0 (f (ords ! 0), 0) = Inr (rv, ri)"
    and d: "(rv = f (ords ! 0) \<and> ri = 0 \<and> (\<forall>k<length ords. f (ords ! 0) \<le> f (ords ! k))) \<or>
            (\<exists>k<length ords. ri = 0 + k \<and> rv = f (ords ! k) \<and> rv < f (ords ! 0) \<and>
               (\<forall>j<length ords. rv \<le> f (ords ! j)) \<and> (\<forall>j<k. rv < f (ords ! j)))"
    by blast
  have sel: "selectMin key ords = Inr (rv, ri)"
    using first r by (simp add: selectMin_def)
  from d have "rv = f (ords ! ri) \<and> firstMinimum (map f ords) ri"
    using assms(1) by (auto simp: firstMinimum_iff)
  then show ?thesis using sel by blast
qed

lemma houseDistance_valid:
  "0 \<le> HouseNumber ord \<Longrightarrow> HouseNumber ord < int (length locs) \<Longrightarrow>
   houseDistance w locs ord = Inr (distanceOf w locs ord)"
  by (simp add: houseDistance_def lookupLocation_def distanceOf_def)

lemma lookupLocation_valid:
  "0 \<le> h \<Longrightarrow> h < int (length locs) \<Longrightarrow> lookupLocation locs h = Inr (locs ! nat h)"
  by (simp add: lookupLocation_def)

lemma validOrders_nth:
  "validOrders locs ords \<Longrightarrow> i < length ords \<Longrightarrow>
   0 \<le> HouseNumber (ords ! i) \<and> HouseNumber (ords ! i) < int (length locs)"
  by (simp add: validOrders_def list_all_length)

lemma rescan_valid:
  "validOrders locs ords \<Longrightarrow>
   rescan w locs Distance ords =
     Inr (list_ex (\<lambda>ord. WaitsHousePizzaDelivery w (HouseNumber ord) \<and>
                          Distance = distanceOf w locs ord) ords)"
  by (induction ords) (simp_all add: validOrders_def houseDistance_valid)

subsection \<open>One tick, with every index in range\<close>

lemma chooseOrder_valid:
  assumes "ords \<noteq> []" and "validOrders locs ords"
  shows "\<exists>ci ui. firstMinimum (map (distanceOf w locs) ords) ci \<and>
           firstMinimum (map (timeLeftOf w) ords) ui \<and>
           chooseOrder w s locs ords =
             Inr (if burnsSoon w (timeLeftOf w (ords ! ui)) (distanceOf w locs (ords ! ui))
                       (GetCharacterMaxSpeed w) \<and> terribleStatus s \<noteq> 2
                  then (ords ! ui, 1) else (ords ! ci, terribleStatus s))"
proof -
  have kd: "\<forall>ord\<in>set ords. houseDistance w locs ord = Inr (distanceOf w locs ord)"
    using assms(2) by (simp add: validOrders_def list_all_iff houseDistance_valid)
  have kt: "\<forall>ord\<in>set ords. houseTimeLeft w ord = Inr (timeLeftOf w ord)"
    by (simp add: houseTimeLeft_def timeLeftOf_def)
  from selectMin_firstMinimum[OF assms(1) kd] obtain ci where
    c: "closestScan w locs ords = Inr (distanceOf w locs (ords ! ci), ci)"
       "firstMinimum (map (distanceOf w locs) ords) ci"
    unfolding closestScan_def by blast
  from selectMin_firstMinimum[OF assms(1) kt] obtain ui where
    u: "terribleScan w ords = Inr (timeLeftOf w (ords ! ui), ui)"
       "firstMinimum (map (timeLeftOf w) ords) ui"
    unfolding terribleScan_def by blast
  have ci: "ci < length ords" and ui: "ui < length ords"
    using c(2) u(2) by (simp_all add: firstMinimum_iff)
  have hd: "houseDistance w locs (ords ! ui) = Inr (distanceOf w locs (ords ! ui))"
    using kd ui by simp
  have "chooseOrder w s locs ords =
             Inr (if burnsSoon w (timeLeftOf w (ords ! ui)) (distanceOf w locs (ords ! ui))
                       (GetCharacterMaxSpeed w) \<and> terribleStatus s \<noteq> 2
                  then (ords ! ui, 1) else (ords ! ci, terribleStatus s))"
    using c(1) u(1) ci ui hd by (simp add: chooseOrder_def lookupOrder_def)
  then show ?thesis using c(2) u(2) by blast
qed

lemma chooseOrder_Inr:
  assumes "chooseOrder w s locs ords = Inr (ord, st)"
  shows "ord \<in> set ords \<and> (st = 1 \<or> st = terribleStatus s)"
  using assms
  by (auto simp: chooseOrder_def lookupOrder_def split: sum.splits prod.splits if_splits)

lemma tickIdle_valid:
  assumes "GetPizzaOrders w \<noteq> []" and "validWorld w"
  shows "\<exists>ci ui. firstMinimum (map (distanceOf w (GetHouseLocations w)) (GetPizzaOrders w)) ci \<and>
           firstMinimum (map (timeLeftOf w) (GetPizzaOrders w)) ui \<and>
           tickIdle w a s =
             (let urgent = GetPizzaOrders w ! ui;
                  escalate = (burnsSoon w (timeLeftOf w urgent)
                                (distanceOf w (GetHouseLocations w) urgent)
                                (GetCharacterMaxSpeed w) \<and> terribleStatus s \<noteq> 2);
                  Order = (if escalate then urgent else GetPizzaOrders w ! ci);
                  status = (if escalate then 1 else terribleStatus s)
              in if GetPizzaAmount w = 0 \<and> \<not> TryGrabPizza a
                 then Inr (s\<lparr>terribleStatus := status\<rparr>, [TryGrabPizzaCall])
                 else Inr (s\<lparr>bDeliveringOrder := True,
                             CurrentOrderNumber := OrderNumber Order,
                             CurrentDestination :=
                               Some (GetHouseLocations w ! nat (HouseNumber Order)),
                             terribleStatus := status\<rparr>,
                           (if GetPizzaAmount w = 0 then [TryGrabPizzaCall] else [])
                           @ [SetNewMoveDestination
                                (GetHouseLocations w ! nat (HouseNumber Order))]))"
proof -
  have v: "validOrders (GetHouseLocations w) (GetPizzaOrders w)"
    using assms(2) by (simp add: validWorld_def)
  from chooseOrder_valid[OF assms(1) v, of w s] obtain ci ui where
    f: "firstMinimum (map (distanceOf w (GetHouseLocations w)) (GetPizzaOrders w)) ci"
       "firstMinimum (map (timeLeftOf w) (GetPizzaOrders w)) ui"
    and ch: "chooseOrder w s (GetHouseLocations w) (GetPizzaOrders w) =
             Inr (if burnsSoon w (timeLeftOf w (GetPizzaOrders w ! ui))
                       (distanceOf w (GetHouseLocations w) (GetPizzaOrders w ! ui))
                       (GetCharacterMaxSpeed w) \<and> terribleStatus s \<noteq> 2
                  then (GetPizzaOrders w ! ui, 1) else (GetPizzaOrders w ! ci, terribleStatus s))"
    by blast
  have ci: "ci < length (GetPizzaOrders w)" and ui: "ui < length (GetPizzaOrders w)"
    using f by (simp_all add: firstMinimum_iff)
  have lc: "lookupLocation (GetHouseLocations w) (HouseNumber (GetPizzaOrders w ! ci)) =
              Inr (GetHouseLocations w ! nat (HouseNumber (GetPizzaOrders w ! ci)))"
    using validOrders_nth[OF v ci] by (simp add: lookupLocation_valid)
  have lu: "lookupLocation (GetHouseLocations w) (HouseNumber (GetPizzaOrders w ! ui)) =
              Inr (GetHouseLocations w ! nat (HouseNumber (GetPizzaOrders w ! ui)))"
    using validOrders_nth[OF v ui] by (simp add: lookupLocation_valid)
  have "tickIdle w a s =
             (let urgent = GetPizzaOrders w ! ui;
                  escalate = (burnsSoon w (timeLeftOf w urgent)
                                (distanceOf w (GetHouseLocations w) urgent)
                                (GetCharacterMaxSpeed w) \<and> terribleStatus s \<noteq> 2);
                  Order = (if escalate then urgent else GetPizzaOrders w ! ci);
                  status = (if escalate then 1 else terribleStatus s)
              in if GetPizzaAmount w = 0 \<and> \<not> TryGrabPizza a
                 then Inr (s\<lparr>terribleStatus := status\<rparr>, [TryGrabPizzaCall])
                 else Inr (s\<lparr>bDeliveringOrder := True,
                             CurrentOrderNumber := OrderNumber Order,
                             CurrentDestination :=
                               Some (GetHouseLocations w ! nat (HouseNumber Order)),
                             terribleStatus := status\<rparr>,
                           (if GetPizzaAmount w = 0 then [TryGrabPizzaCall] else [])
                           @ [SetNewMoveDestination
                                (GetHouseLocations w ! nat (HouseNumber Order))]))"
    using assms(1) ch lc lu by (simp add: tickIdle_def Let_def)
  then show ?thesis using f by blast
qed

lemma tickDelivering_valid:
  assumes "CurrentDestination s = Some dest"
    and "TryDeliverPizza a (CurrentOrderNumber s) = (ok, w')"
    and "ok \<longrightarrow> validWorld w'"
  shows "tickDelivering w a s =
     (let Distance = GetDistanceToDestination w dest in
      if Distance > 300 then Inr (s, [SetNewMoveDestination dest])
      else if ok then
        Inr (s\<lparr>bDeliveringOrder := False, CurrentOrderNumber := - 1,
               terribleStatus := (if coLocated w' Distance then 2 else 0)\<rparr>,
             [TryDeliverPizzaCall (CurrentOrderNumber s)])
      else
        Inr (s\<lparr>terribleStatus :=
                  (if terribleStatus s = 1 \<and> Distance < 300 then 2 else terribleStatus s)\<rparr>,
             [TryDeliverPizzaCall (CurrentOrderNumber s), SetNewMoveDestination dest]))"
proof (cases ok)
  case True
  then have "validOrders (GetHouseLocations w') (GetPizzaOrders w')"
    using assms(3) by (simp add: validWorld_def)
  from rescan_valid[OF this] show ?thesis
    using assms(1,2) True by (simp add: tickDelivering_def attemptDelivery_def promoteOnArrival_def Let_def coLocated_def)
next
  case False
  then show ?thesis
    using assms(1,2) by (simp add: tickDelivering_def attemptDelivery_def promoteOnArrival_def Let_def)
qed

subsection \<open>One tick, in any world\<close>

lemma tickDelivering_Inr:
  assumes "tickDelivering w a s = Inr (s', calls)"
  shows "\<exists>dest. CurrentDestination s = Some dest \<and> CurrentDestination s' = Some dest \<and>
           ((bDeliveringOrder s' = bDeliveringOrder s \<and>
             CurrentOrderNumber s' = CurrentOrderNumber s \<and>
             (terribleStatus s' = terribleStatus s \<or>
              terribleStatus s = 1 \<and> terribleStatus s' = 2) \<and>
             (calls = [SetNewMoveDestination dest] \<or>
              calls = [TryDeliverPizzaCall (CurrentOrderNumber s), SetNewMoveDestination dest])) \<or>
            (\<not> bDeliveringOrder s' \<and> CurrentOrderNumber s' = - 1 \<and>
             (terribleStatus s' = 0 \<or> terribleStatus s' = 2) \<and>
             calls = [TryDeliverPizzaCall (CurrentOrderNumber s)]))"
  using assms
  by (auto simp: tickDelivering_def attemptDelivery_def promoteOnArrival_def Let_def split: option.splits if_splits prod.splits sum.splits)

lemma tickIdle_Inr:
  assumes "tickIdle w a s = Inr (s', calls)"
  shows "(terribleStatus s' = terribleStatus s \<or> terribleStatus s' = 1) \<and>
         ((bDeliveringOrder s' = bDeliveringOrder s \<and>
           CurrentOrderNumber s' = CurrentOrderNumber s \<and>
           CurrentDestination s' = CurrentDestination s \<and>
           (calls = [] \<or> calls = [TryGrabPizzaCall])) \<or>
          (bDeliveringOrder s' \<and>
           (\<exists>ord\<in>set (GetPizzaOrders w). CurrentOrderNumber s' = OrderNumber ord) \<and>
           (\<exists>p. CurrentDestination s' = Some p \<and>
                (calls = [SetNewMoveDestination p] \<or>
                 calls = [TryGrabPizzaCall, SetNewMoveDestination p]))))"
proof (cases "length (GetPizzaOrders w) = 0")
  case True
  then show ?thesis using assms by (simp add: tickIdle_def)
next
  case False
  then obtain ord st where ch: "chooseOrder w s (GetHouseLocations w) (GetPizzaOrders w) = Inr (ord, st)"
    using assms by (auto simp: tickIdle_def Let_def split: sum.splits)
  from chooseOrder_Inr[OF ch] have m: "ord \<in> set (GetPizzaOrders w)"
    and st: "st = 1 \<or> st = terribleStatus s" by simp_all
  show ?thesis
  proof (cases "GetPizzaAmount w = 0 \<and> \<not> TryGrabPizza a")
    case True
    then have "s' = s\<lparr>terribleStatus := st\<rparr>" "calls = [TryGrabPizzaCall]"
      using assms False ch by (simp_all add: tickIdle_def Let_def)
    then show ?thesis using st by auto
  next
    case nograb: False
    then obtain p where p: "lookupLocation (GetHouseLocations w) (HouseNumber ord) = Inr p"
      using assms False ch by (auto simp: tickIdle_def Let_def split: sum.splits)
    have s': "s' = s\<lparr>terribleStatus := st, bDeliveringOrder := True,
                     CurrentOrderNumber := OrderNumber ord, CurrentDestination := Some p\<rparr>"
      and c: "calls = (if GetPizzaAmount w = 0 then [TryGrabPizzaCall] else []) @ [SetNewMoveDestination p]"
      using assms False ch nograb p by (simp_all add: tickIdle_def Let_def split: if_splits)
    show ?thesis using s' c st m by auto
  qed
qed

section \<open>The claims\<close>

text \<open>The definitions of the example worlds, for evaluation.\<close>

lemmas example_defs =
  village_def order7_def order8_def order9_def calmWorld_def urgentWorld_def hungryWorld_def
  afterSeven_def afterSevenTwin_def refusing_def grabbing_def delivering_def enRoute_def
  idle_def init_state_def order10_def
  tiedFarWorld_def tiedNearWorld_def exactDivide_def

lemmas tick_defs =
  Tick_def tickIdle_def tickDelivering_def attemptDelivery_def promoteOnArrival_def chooseOrder_def closestScan_def
  terribleScan_def selectMin_def lookupOrder_def lookupLocation_def houseDistance_def
  houseTimeLeft_def burnsSoon_def

subsection \<open>Selection\<close>

lemma firstMinimum_unique:
  assumes "firstMinimum vs i" and "firstMinimum vs j"
  shows "i = j"
proof (rule ccontr)
  assume "i \<noteq> j"
  then consider "i < j" | "j < i" by linarith
  then show False
  proof cases
    case 1
    then have "vs ! j < vs ! i" using assms(2) by (simp add: firstMinimum_iff)
    moreover have "vs ! i \<le> vs ! j" using assms by (simp add: firstMinimum_iff)
    ultimately show False by simp
  next
    case 2
    then have "vs ! i < vs ! j" using assms(1) by (simp add: firstMinimum_iff)
    moreover have "vs ! j \<le> vs ! i" using assms by (simp add: firstMinimum_iff)
    ultimately show False by simp
  qed
qed

lemma firstMinimum_least:
  assumes "firstMinimum (map f xs) i"
  shows "i < length xs \<and> (\<forall>k<length xs. f (xs ! i) \<le> f (xs ! k)) \<and>
         (\<forall>k<length xs. f (xs ! k) = f (xs ! i) \<longrightarrow> i \<le> k) \<and>
         (\<forall>j k. j < k \<and> k < length xs \<and> f (xs ! j) = f (xs ! k) \<longrightarrow> i \<noteq> k)"
proof -
  have i: "i < length xs" using assms by (simp add: firstMinimum_iff)
  have le: "\<forall>k<length xs. f (xs ! i) \<le> f (xs ! k)"
    using assms i by (simp add: firstMinimum_iff)
  have lt: "\<forall>k<i. f (xs ! i) < f (xs ! k)"
    using assms i by (simp add: firstMinimum_iff)
  have first: "\<forall>k<length xs. f (xs ! k) = f (xs ! i) \<longrightarrow> i \<le> k"
  proof (intro allI impI)
    fix k assume "k < length xs" and e: "f (xs ! k) = f (xs ! i)"
    show "i \<le> k"
    proof (rule ccontr)
      assume "\<not> i \<le> k"
      then have "f (xs ! i) < f (xs ! k)" using lt by simp
      then show False using e by simp
    qed
  qed
  have tie: "\<forall>j k. j < k \<and> k < length xs \<and> f (xs ! j) = f (xs ! k) \<longrightarrow> i \<noteq> k"
  proof (intro allI impI notI)
    fix j k assume a: "j < k \<and> k < length xs \<and> f (xs ! j) = f (xs ! k)" and "i = k"
    then have "f (xs ! k) < f (xs ! j)" using lt a by auto
    then show False using a by simp
  qed
  show ?thesis using i le first tie by blast
qed

text \<open>
  C8, as stated, fails: of two orders with identical distance the earlier one need not be
  the one selected. With orders at distances 200, 200 and 100 the closest scan returns
  the third, and the tick takes that order, not the earlier of the tied ones.
\<close>

theorem tie_not_selected_counterexample:
  "distanceOf tiedFarWorld (GetHouseLocations tiedFarWorld) order8 = 200 \<and>
   distanceOf tiedFarWorld (GetHouseLocations tiedFarWorld) order10 = 200 \<and>
   GetPizzaOrders tiedFarWorld = [order8, order10, order7] \<and>
   closestScan tiedFarWorld (GetHouseLocations tiedFarWorld) (GetPizzaOrders tiedFarWorld)
     = Inr (100, 2) \<and>
   Tick tiedFarWorld grabbing init_state =
     Inr (\<lparr>bDeliveringOrder = True, CurrentOrderNumber = 7,
           CurrentDestination = Some (100, 0, 0), terribleStatus = 0\<rparr>,
          [SetNewMoveDestination (100, 0, 0)])"
  by (simp add: tick_defs distanceOf_def example_defs)

text \<open>
  C8, amended. An Idle tick over a non-empty pending sequence (house numbers in range)
  computes as closest the first order of the sequence whose distance is least, and as
  most urgent the first order whose time left is least: no order has a smaller value,
  every order with the same value comes later, and so of two orders with identical
  distance (or identical time left) the later one is never the one computed. The tick
  selects the most urgent order when the escalation test fires and the urgency is not
  Committed, and the closest order otherwise, and with a pizza in hand or a successful
  pickup it commits to the selected order's number and house.
\<close>

theorem tie_break_selection:
  assumes "\<not> bDeliveringOrder s" and "GetPizzaOrders w \<noteq> []" and "validWorld w"
  shows "\<exists>ci ui.
           (let ords = GetPizzaOrders w; locs = GetHouseLocations w;
                dist = distanceOf w locs; left = timeLeftOf w;
                escalate = (burnsSoon w (left (ords ! ui)) (dist (ords ! ui))
                              (GetCharacterMaxSpeed w) \<and> terribleStatus s \<noteq> 2);
                Order = (if escalate then ords ! ui else ords ! ci)
            in ci < length ords \<and> ui < length ords \<and>
               closestScan w locs ords = Inr (dist (ords ! ci), ci) \<and>
               terribleScan w ords = Inr (left (ords ! ui), ui) \<and>
               (\<forall>k<length ords. dist (ords ! ci) \<le> dist (ords ! k)) \<and>
               (\<forall>k<length ords. dist (ords ! k) = dist (ords ! ci) \<longrightarrow> ci \<le> k) \<and>
               (\<forall>j k. j < k \<and> k < length ords \<and> dist (ords ! j) = dist (ords ! k) \<longrightarrow> ci \<noteq> k) \<and>
               (\<forall>k<length ords. left (ords ! ui) \<le> left (ords ! k)) \<and>
               (\<forall>k<length ords. left (ords ! k) = left (ords ! ui) \<longrightarrow> ui \<le> k) \<and>
               (\<forall>j k. j < k \<and> k < length ords \<and> left (ords ! j) = left (ords ! k) \<longrightarrow> ui \<noteq> k) \<and>
               chooseOrder w s locs ords =
                 Inr (Order, if escalate then 1 else terribleStatus s) \<and>
               (GetPizzaAmount w \<noteq> 0 \<or> TryGrabPizza a \<longrightarrow>
                  (\<exists>s' calls. Tick w a s = Inr (s', calls) \<and> bDeliveringOrder s' \<and>
                     CurrentOrderNumber s' = OrderNumber Order \<and>
                     CurrentDestination s' = Some (locs ! nat (HouseNumber Order)))))"
proof -
  let ?ords = "GetPizzaOrders w" and ?locs = "GetHouseLocations w"
  have v: "validOrders ?locs ?ords" using assms(3) by (simp add: validWorld_def)
  have kd: "\<forall>ord\<in>set ?ords. houseDistance w ?locs ord = Inr (distanceOf w ?locs ord)"
    using v by (simp add: validOrders_def list_all_iff houseDistance_valid)
  have kt: "\<forall>ord\<in>set ?ords. houseTimeLeft w ord = Inr (timeLeftOf w ord)"
    by (simp add: houseTimeLeft_def timeLeftOf_def)
  from selectMin_firstMinimum[OF assms(2) kd] obtain ci where
    c: "closestScan w ?locs ?ords = Inr (distanceOf w ?locs (?ords ! ci), ci)"
    and fc: "firstMinimum (map (distanceOf w ?locs) ?ords) ci"
    unfolding closestScan_def by blast
  from selectMin_firstMinimum[OF assms(2) kt] obtain ui where
    u: "terribleScan w ?ords = Inr (timeLeftOf w (?ords ! ui), ui)"
    and fu: "firstMinimum (map (timeLeftOf w) ?ords) ui"
    unfolding terribleScan_def by blast
  from chooseOrder_valid[OF assms(2) v, of w s] obtain ci' ui' where
    fc': "firstMinimum (map (distanceOf w ?locs) ?ords) ci'"
    and fu': "firstMinimum (map (timeLeftOf w) ?ords) ui'"
    and ch': "chooseOrder w s ?locs ?ords =
             Inr (if burnsSoon w (timeLeftOf w (?ords ! ui')) (distanceOf w ?locs (?ords ! ui'))
                       (GetCharacterMaxSpeed w) \<and> terribleStatus s \<noteq> 2
                  then (?ords ! ui', 1) else (?ords ! ci', terribleStatus s))"
    by blast
  have eqc: "ci' = ci" using firstMinimum_unique[OF fc' fc] .
  have equ: "ui' = ui" using firstMinimum_unique[OF fu' fu] .
  let ?esc = "burnsSoon w (timeLeftOf w (?ords ! ui)) (distanceOf w ?locs (?ords ! ui))
                       (GetCharacterMaxSpeed w) \<and> terribleStatus s \<noteq> 2"
  let ?Order = "if ?esc then ?ords ! ui else ?ords ! ci"
  have ch: "chooseOrder w s ?locs ?ords = Inr (?Order, if ?esc then 1 else terribleStatus s)"
    using ch' eqc equ by simp
  note lc = firstMinimum_least[OF fc]
  note lu = firstMinimum_least[OF fu]
  have ci: "ci < length ?ords" and ui: "ui < length ?ords" using lc lu by blast+
  have inr: "0 \<le> HouseNumber ?Order \<and> HouseNumber ?Order < int (length ?locs)"
    using validOrders_nth[OF v ci] validOrders_nth[OF v ui] by simp
  have loc: "lookupLocation ?locs (HouseNumber ?Order) = Inr (?locs ! nat (HouseNumber ?Order))"
    using inr by (simp add: lookupLocation_valid)
  have tick: "GetPizzaAmount w \<noteq> 0 \<or> TryGrabPizza a \<longrightarrow>
                  (\<exists>s' calls. Tick w a s = Inr (s', calls) \<and> bDeliveringOrder s' \<and>
                     CurrentOrderNumber s' = OrderNumber ?Order \<and>
                     CurrentDestination s' = Some (?locs ! nat (HouseNumber ?Order)))"
  proof
    assume g: "GetPizzaAmount w \<noteq> 0 \<or> TryGrabPizza a"
    have "Tick w a s =
            Inr (s\<lparr>terribleStatus := (if ?esc then 1 else terribleStatus s),
                   bDeliveringOrder := True,
                   CurrentOrderNumber := OrderNumber ?Order,
                   CurrentDestination := Some (?locs ! nat (HouseNumber ?Order))\<rparr>,
                 (if GetPizzaAmount w = 0 then [TryGrabPizzaCall] else [])
                 @ [SetNewMoveDestination (?locs ! nat (HouseNumber ?Order))])"
      using assms(1,2) g ch loc by (simp add: Tick_def tickIdle_def Let_def)
    then show "\<exists>s' calls. Tick w a s = Inr (s', calls) \<and> bDeliveringOrder s' \<and>
                     CurrentOrderNumber s' = OrderNumber ?Order \<and>
                     CurrentDestination s' = Some (?locs ! nat (HouseNumber ?Order))"
      by simp
  qed
  have lc1: "\<forall>k<length ?ords. distanceOf w ?locs (?ords ! ci) \<le> distanceOf w ?locs (?ords ! k)"
    and lc2: "\<forall>k<length ?ords. distanceOf w ?locs (?ords ! k) = distanceOf w ?locs (?ords ! ci) \<longrightarrow> ci \<le> k"
    and lc3: "\<forall>j k. j < k \<and> k < length ?ords \<and>
                  distanceOf w ?locs (?ords ! j) = distanceOf w ?locs (?ords ! k) \<longrightarrow> ci \<noteq> k"
    using lc by blast+
  have lu1: "\<forall>k<length ?ords. timeLeftOf w (?ords ! ui) \<le> timeLeftOf w (?ords ! k)"
    and lu2: "\<forall>k<length ?ords. timeLeftOf w (?ords ! k) = timeLeftOf w (?ords ! ui) \<longrightarrow> ui \<le> k"
    and lu3: "\<forall>j k. j < k \<and> k < length ?ords \<and>
                  timeLeftOf w (?ords ! j) = timeLeftOf w (?ords ! k) \<longrightarrow> ui \<noteq> k"
    using lu by blast+
  show ?thesis
    unfolding Let_def
    by (rule exI[of _ ci], rule exI[of _ ui], intro conjI)
       (rule ci ui c u lc1 lc2 lc3 lu1 lu2 lu3 ch tick)+
qed

theorem tie_break_selection_witness:
  "\<not> bDeliveringOrder init_state \<and> GetPizzaOrders tiedNearWorld = [order8, order7, order9] \<and>
   validWorld tiedNearWorld \<and>
   distanceOf tiedNearWorld village order7 = distanceOf tiedNearWorld village order9 \<and>
   closestScan tiedNearWorld village [order8, order7, order9] = Inr (100, 1) \<and>
   (\<exists>s' calls. Tick tiedNearWorld grabbing init_state = Inr (s', calls) \<and>
      CurrentOrderNumber s' = 7 \<and> CurrentDestination s' = Some (100, 0, 0))"
proof -
  have h1: "\<not> bDeliveringOrder init_state" by (simp add: init_state_def)
  have o: "GetPizzaOrders tiedNearWorld = [order8, order7, order9]"
    by (simp add: tiedNearWorld_def)
  have l: "GetHouseLocations tiedNearWorld = village"
    by (simp add: tiedNearWorld_def calmWorld_def)
  have h2: "GetPizzaOrders tiedNearWorld \<noteq> []" using o by simp
  have h3: "validWorld tiedNearWorld"
    by (simp add: validWorld_def validOrders_def example_defs)
  have d0: "distanceOf tiedNearWorld village order8 = 200"
    and d1: "distanceOf tiedNearWorld village order7 = 100"
    and d2: "distanceOf tiedNearWorld village order9 = 100"
    by (simp_all add: distanceOf_def example_defs)
  have t: "timeLeftOf tiedNearWorld order8 = 60" "timeLeftOf tiedNearWorld order7 = 60"
    "timeLeftOf tiedNearWorld order9 = 60"
    by (simp_all add: timeLeftOf_def example_defs)
  have g: "GetPizzaAmount tiedNearWorld \<noteq> 0 \<or> TryGrabPizza grabbing"
    by (simp add: grabbing_def)
  have nb: "\<not> burnsSoon tiedNearWorld 60 200 (GetCharacterMaxSpeed tiedNearWorld)"
    by (simp add: burnsSoon_def example_defs)
  note tb = tie_break_selection[OF h1 h2 h3, of grabbing, unfolded Let_def o l]
  from tb show ?thesis
  proof (elim exE conjE, goal_cases)
    case (1 ci ui)
    have ci: "ci = 0 \<or> ci = 1 \<or> ci = 2" using 1(1) by auto
    have ui: "ui = 0 \<or> ui = 1 \<or> ui = 2" using 1(2) by auto
    have "ci \<noteq> 0"
    proof
      assume z: "ci = 0"
      have "distanceOf tiedNearWorld village ([order8, order7, order9] ! ci)
                      \<le> distanceOf tiedNearWorld village ([order8, order7, order9] ! 1)"
        by (rule 1(5)[rule_format]) simp
      then show False using z d0 d1 by simp
    qed
    moreover have "ci \<noteq> 2"
    proof
      assume z: "ci = 2"
      have "distanceOf tiedNearWorld village ([order8, order7, order9] ! 1) =
                      distanceOf tiedNearWorld village ([order8, order7, order9] ! ci)
                      \<longrightarrow> ci \<le> 1"
        using 1(6)[rule_format, of 1] by simp
      then show False using z d1 d2 by simp
    qed
    ultimately have ci1: "ci = 1" using ci by blast
    have "timeLeftOf tiedNearWorld ([order8, order7, order9] ! 0) =
          timeLeftOf tiedNearWorld ([order8, order7, order9] ! ui)"
      using ui t by auto
    moreover have "timeLeftOf tiedNearWorld ([order8, order7, order9] ! 0) =
          timeLeftOf tiedNearWorld ([order8, order7, order9] ! ui) \<longrightarrow> ui \<le> 0"
      using 1(9)[rule_format, of 0] by simp
    ultimately have ui0: "ui = 0" by simp
    have sel: "(if burnsSoon tiedNearWorld (timeLeftOf tiedNearWorld ([order8, order7, order9] ! ui))
                     (distanceOf tiedNearWorld village ([order8, order7, order9] ! ui))
                     (GetCharacterMaxSpeed tiedNearWorld) \<and> terribleStatus init_state \<noteq> 2
                then [order8, order7, order9] ! ui else [order8, order7, order9] ! ci) = order7"
      using ci1 ui0 nb t d0 by simp
    from 1(12) g obtain s' calls where
      r: "Tick tiedNearWorld grabbing init_state = Inr (s', calls)"
      and n: "CurrentOrderNumber s' = OrderNumber order7"
      and p: "CurrentDestination s' = Some (village ! nat (HouseNumber order7))"
      unfolding sel by blast
    have n7: "CurrentOrderNumber s' = 7" using n by (simp add: order7_def)
    have p7: "CurrentDestination s' = Some (100, 0, 0)"
      using p by (simp add: order7_def village_def)
    have cs: "closestScan tiedNearWorld village [order8, order7, order9] = Inr (100, 1)"
      using 1(3) ci1 d1 by simp
    have "\<exists>s' calls. Tick tiedNearWorld grabbing init_state = Inr (s', calls) \<and>
      CurrentOrderNumber s' = 7 \<and> CurrentDestination s' = Some (100, 0, 0)"
      using r n7 p7 by blast
    then show ?case using h1 o h3 d1 d2 cs by simp
  qed
qed

text \<open>
  Where the machine's quotient and difference are exact, the escalation test is the
  inequality of the reals.
\<close>

lemma burnsSoon_exact:
  assumes "FloatDivide w d v = Finite (d / v)"
    and "FloatSubtract w t (Finite (d / v)) = Finite (t - d / v)"
  shows "burnsSoon w t d v = (t - d / v < 5)"
  using assms by (simp add: burnsSoon_def)

lemma firstMinimum_pair:
  assumes "firstMinimum [x, y] i"
  shows "i = (if y < x then 1 else 0)"
proof -
  have i: "i = 0 \<or> i = 1" using assms by (auto simp: firstMinimum_iff)
  then show ?thesis
  proof
    assume "i = 0"
    then have "x \<le> y" using assms by (auto simp: firstMinimum_iff dest: spec[of _ 1])
    then show ?thesis using \<open>i = 0\<close> by simp
  next
    assume "i = 1"
    then have "y < x" using assms by (auto simp: firstMinimum_iff)
    then show ?thesis using \<open>i = 1\<close> by simp
  qed
qed

text \<open>
  C1, as stated, fails: the branch that selects the closest order leaves the urgency level
  as it is, which need not be Normal. After order 7 is delivered next to a house at the
  same distance that still waits, the controller is Idle with urgency Committed; the
  next Idle tick selects the closest order (order 9) and the urgency is still Committed.
\<close>

theorem escalation_otherwise_counterexample:
  "run [(calmWorld, grabbing), (calmWorld, delivering afterSevenTwin)] init_state =
     Inr \<lparr>bDeliveringOrder = False, CurrentOrderNumber = - 1,
          CurrentDestination = Some (100, 0, 0), terribleStatus = 2\<rparr> \<and>
   Tick afterSevenTwin grabbing
     \<lparr>bDeliveringOrder = False, CurrentOrderNumber = - 1,
      CurrentDestination = Some (100, 0, 0), terribleStatus = 2\<rparr> =
     Inr (\<lparr>bDeliveringOrder = True, CurrentOrderNumber = 9,
           CurrentDestination = Some (100, 5, 0), terribleStatus = 2\<rparr>,
          [SetNewMoveDestination (100, 5, 0)])"
  by (simp add: Tick_def tickIdle_def tickDelivering_def attemptDelivery_def
      promoteOnArrival_def chooseOrder_def closestScan_def
      terribleScan_def selectMin_def lookupOrder_def lookupLocation_def houseDistance_def
      houseTimeLeft_def burnsSoon_def example_defs)

text \<open>
  C1, amended. An Idle tick with a non-empty pending sequence (house numbers in range):
  let \<open>ci\<close> be the first index of least distance and \<open>ui\<close> the first index of least time
  left. If the time left of order \<open>ui\<close> minus its distance divided by the maximal speed,
  as the float arithmetic of the machine computes the quotient and the difference, is
  below 5 and the urgency level is not Committed, the tick selects order \<open>ui\<close> and sets
  the urgency to Flagged; otherwise it selects order \<open>ci\<close> and leaves the urgency level
  unchanged. This holds for every float arithmetic (\<open>FloatDivide\<close>, \<open>FloatSubtract\<close>). The selected order is committed to (phase EnRoute, its number, its house
  location, a move towards it) unless no pizza is held and the pickup fails; then only
  the urgency level is written.
\<close>

theorem escalation_selection:
  assumes "\<not> bDeliveringOrder s" and "GetPizzaOrders w \<noteq> []" and "validWorld w"
  shows "\<exists>ci ui. firstMinimum (map (distanceOf w (GetHouseLocations w)) (GetPizzaOrders w)) ci \<and>
           firstMinimum (map (timeLeftOf w) (GetPizzaOrders w)) ui \<and>
           Tick w a s =
             (let urgent = GetPizzaOrders w ! ui;
                  escalate = (burnsSoon w (timeLeftOf w urgent)
                                (distanceOf w (GetHouseLocations w) urgent)
                                (GetCharacterMaxSpeed w) \<and> terribleStatus s \<noteq> 2);
                  Order = (if escalate then urgent else GetPizzaOrders w ! ci);
                  status = (if escalate then 1 else terribleStatus s)
              in if GetPizzaAmount w = 0 \<and> \<not> TryGrabPizza a
                 then Inr (s\<lparr>terribleStatus := status\<rparr>, [TryGrabPizzaCall])
                 else Inr (s\<lparr>bDeliveringOrder := True,
                             CurrentOrderNumber := OrderNumber Order,
                             CurrentDestination :=
                               Some (GetHouseLocations w ! nat (HouseNumber Order)),
                             terribleStatus := status\<rparr>,
                           (if GetPizzaAmount w = 0 then [TryGrabPizzaCall] else [])
                           @ [SetNewMoveDestination
                                (GetHouseLocations w ! nat (HouseNumber Order))]))"
  using tickIdle_valid[OF assms(2,3), of a s] assms(1) by (simp add: Tick_def)

theorem escalation_selection_witness:
  "\<not> bDeliveringOrder init_state \<and> GetPizzaOrders urgentWorld \<noteq> [] \<and> validWorld urgentWorld \<and>
   Tick urgentWorld grabbing init_state =
     Inr (\<lparr>bDeliveringOrder = True, CurrentOrderNumber = 8,
           CurrentDestination = Some (200, 0, 0), terribleStatus = 1\<rparr>,
          [SetNewMoveDestination (200, 0, 0)])"
proof -
  have h1: "\<not> bDeliveringOrder init_state" by (simp add: init_state_def)
  have h2: "GetPizzaOrders urgentWorld \<noteq> []" by (simp add: example_defs)
  have h3: "validWorld urgentWorld" by (simp add: validWorld_def validOrders_def example_defs)
  have d: "map (distanceOf urgentWorld (GetHouseLocations urgentWorld)) (GetPizzaOrders urgentWorld)
             = [100, 200]"
    by (simp add: distanceOf_def example_defs)
  have t: "map (timeLeftOf urgentWorld) (GetPizzaOrders urgentWorld) = [60, 20]"
    by (simp add: timeLeftOf_def example_defs)
  from escalation_selection[OF h1 h2 h3, of grabbing] obtain ci ui where
    fc: "firstMinimum [100, 200] ci" and fu: "firstMinimum [60, 20] ui"
    and tk: "Tick urgentWorld grabbing init_state =
             (let urgent = GetPizzaOrders urgentWorld ! ui;
                  escalate = (burnsSoon urgentWorld (timeLeftOf urgentWorld urgent)
                                (distanceOf urgentWorld (GetHouseLocations urgentWorld) urgent)
                                (GetCharacterMaxSpeed urgentWorld) \<and> terribleStatus init_state \<noteq> 2);
                  Order = (if escalate then urgent else GetPizzaOrders urgentWorld ! ci);
                  status = (if escalate then 1 else terribleStatus init_state)
              in if GetPizzaAmount urgentWorld = 0 \<and> \<not> TryGrabPizza grabbing
                 then Inr (init_state\<lparr>terribleStatus := status\<rparr>, [TryGrabPizzaCall])
                 else Inr (init_state\<lparr>bDeliveringOrder := True,
                             CurrentOrderNumber := OrderNumber Order,
                             CurrentDestination :=
                               Some (GetHouseLocations urgentWorld ! nat (HouseNumber Order)),
                             terribleStatus := status\<rparr>,
                           (if GetPizzaAmount urgentWorld = 0 then [TryGrabPizzaCall] else [])
                           @ [SetNewMoveDestination
                                (GetHouseLocations urgentWorld ! nat (HouseNumber Order))]))"
    unfolding d t by blast
  have "ci = 0" using firstMinimum_pair[OF fc] by simp
  moreover have "ui = 1" using firstMinimum_pair[OF fu] by simp
  ultimately have "Tick urgentWorld grabbing init_state =
     Inr (\<lparr>bDeliveringOrder = True, CurrentOrderNumber = 8,
           CurrentDestination = Some (200, 0, 0), terribleStatus = 1\<rparr>,
          [SetNewMoveDestination (200, 0, 0)])"
    using tk by (simp add: Let_def burnsSoon_def timeLeftOf_def distanceOf_def example_defs)
  then show ?thesis using h1 h2 h3 by simp
qed

subsection \<open>Invariants\<close>


lemma reachable_status:
  "reachable P s \<Longrightarrow> terribleStatus s = 0 \<or> terribleStatus s = 1 \<or> terribleStatus s = 2"
proof (induction rule: reachable.induct)
  case reachable_init
  then show ?case by (simp add: init_state_def)
next
  case (reachable_tick s w a s' calls)
  show ?case
  proof (cases "bDeliveringOrder s")
    case True
    then have "tickDelivering w a s = Inr (s', calls)"
      using reachable_tick.hyps(3) by (simp add: Tick_def)
    from tickDelivering_Inr[OF this] reachable_tick.IH show ?thesis by auto
  next
    case False
    then have "tickIdle w a s = Inr (s', calls)"
      using reachable_tick.hyps(3) by (simp add: Tick_def)
    from tickIdle_Inr[OF this] reachable_tick.IH show ?thesis by auto
  qed
qed

text \<open>
  C2, as stated, fails: the urgency level is not Normal in every Idle state. From the
  constructor's state, an Idle tick whose escalation test fires and whose pickup fails
  ends Idle with urgency Flagged.
\<close>

theorem failed_pickup_counterexample:
  "Tick hungryWorld refusing init_state =
     Inr (\<lparr>bDeliveringOrder = False, CurrentOrderNumber = - 1,
           CurrentDestination = None, terribleStatus = 1\<rparr>, [TryGrabPizzaCall])"
  by (simp add: tick_defs example_defs)

text \<open>
  C2, amended. In every reachable state the urgency level is Normal, Flagged or Committed,
  and it is not tied to the phase. A tick that returns from EnRoute to Idle (a successful
  delivery) ends with urgency Normal or Committed, never Flagged; a tick that stays
  EnRoute leaves the urgency unchanged or promotes Flagged to Committed; a tick that
  starts Idle leaves the urgency unchanged or sets it to Flagged.
\<close>

theorem urgency_levels:
  assumes "reachable P s" and "Tick w a s = Inr (s', calls)"
  shows "terribleStatus s \<in> {0, 1, 2} \<and> terribleStatus s' \<in> {0, 1, 2} \<and>
         (bDeliveringOrder s \<and> \<not> bDeliveringOrder s' \<longrightarrow> terribleStatus s' \<in> {0, 2}) \<and>
         (bDeliveringOrder s \<and> bDeliveringOrder s' \<longrightarrow>
            terribleStatus s' = terribleStatus s \<or>
            terribleStatus s = 1 \<and> terribleStatus s' = 2) \<and>
         (\<not> bDeliveringOrder s \<longrightarrow>
            terribleStatus s' = terribleStatus s \<or> terribleStatus s' = 1)"
proof -
  have st: "terribleStatus s = 0 \<or> terribleStatus s = 1 \<or> terribleStatus s = 2"
    using reachable_status[OF assms(1)] .
  show ?thesis
  proof (cases "bDeliveringOrder s")
    case True
    then have "tickDelivering w a s = Inr (s', calls)"
      using assms(2) by (simp add: Tick_def)
    from tickDelivering_Inr[OF this] st True show ?thesis by auto
  next
    case False
    then have "tickIdle w a s = Inr (s', calls)"
      using assms(2) by (simp add: Tick_def)
    from tickIdle_Inr[OF this] st False show ?thesis by auto
  qed
qed

theorem urgency_levels_witness:
  "reachable (\<lambda>w. True) (enRoute 7 (100, 0, 0) 0) \<and>
   Tick calmWorld (delivering afterSevenTwin) (enRoute 7 (100, 0, 0) 0) =
     Inr (idle (Some (100, 0, 0)) 2, [TryDeliverPizzaCall 7]) \<and>
   terribleStatus (idle (Some (100, 0, 0)) 2) \<in> {0, 2}"
proof -
  have t1: "Tick calmWorld grabbing init_state =
      Inr (enRoute 7 (100, 0, 0) 0, [SetNewMoveDestination (100, 0, 0)])"
    by (simp add: tick_defs example_defs)
  have r: "reachable (\<lambda>w. True) (enRoute 7 (100, 0, 0) 0)"
    by (rule reachable_tick[where P = "\<lambda>w. True" and w = calmWorld, OF reachable_init _ t1]) simp
  have t2: "Tick calmWorld (delivering afterSevenTwin) (enRoute 7 (100, 0, 0) 0) =
     Inr (idle (Some (100, 0, 0)) 2, [TryDeliverPizzaCall 7])"
    by (simp add: tick_defs example_defs)
  from urgency_levels[OF r t2]
  have "terribleStatus (idle (Some (100, 0, 0)) 2) \<in> {0, 2}"
    by (simp add: enRoute_def idle_def)
  then show ?thesis using r t2 by simp
qed

text \<open>
  C3, as stated, fails: the destination is never cleared. After order 7 is taken and
  delivered, the controller is Idle, has no active order, and its destination is still
  the location of house 0.
\<close>

theorem destination_kept_counterexample:
  "run [(calmWorld, grabbing), (calmWorld, delivering afterSeven)] init_state =
     Inr \<lparr>bDeliveringOrder = False, CurrentOrderNumber = - 1,
          CurrentDestination = Some (100, 0, 0), terribleStatus = 0\<rparr>"
  by (simp add: tick_defs example_defs)

text \<open>
  C3, amended. In every reachable state: when the phase is Idle no order is active; when
  the phase is EnRoute the destination is set; and when no pending order carries the
  number \<open>-1\<close>, an order is active when the phase is EnRoute. So the active order
  is set exactly in phase EnRoute, and the destination is set in phase EnRoute and
  stays set afterwards.
\<close>

theorem phase_invariant:
  assumes "reachable P s"
  shows "(\<not> bDeliveringOrder s \<longrightarrow> CurrentOrderNumber s = - 1) \<and>
         (bDeliveringOrder s \<longrightarrow> CurrentDestination s \<noteq> None) \<and>
         ((\<forall>w. P w \<longrightarrow> numbered w) \<longrightarrow> bDeliveringOrder s \<longrightarrow> CurrentOrderNumber s \<noteq> - 1)"
  using assms
proof (induction rule: reachable.induct)
  case reachable_init
  then show ?case by (simp add: init_state_def)
next
  case (reachable_tick s w a s' calls)
  show ?case
  proof (cases "bDeliveringOrder s")
    case True
    then have "tickDelivering w a s = Inr (s', calls)"
      using reachable_tick.hyps(3) by (simp add: Tick_def)
    from tickDelivering_Inr[OF this] reachable_tick.IH True show ?thesis by auto
  next
    case False
    then have "tickIdle w a s = Inr (s', calls)"
      using reachable_tick.hyps(3) by (simp add: Tick_def)
    from tickIdle_Inr[OF this] False
    have d: "(\<not> bDeliveringOrder s' \<and> CurrentOrderNumber s' = CurrentOrderNumber s) \<or>
             (bDeliveringOrder s' \<and>
              (\<exists>ord\<in>set (GetPizzaOrders w). CurrentOrderNumber s' = OrderNumber ord) \<and>
              CurrentDestination s' \<noteq> None)"
      by auto
    have old: "CurrentOrderNumber s = - 1" using reachable_tick.IH False by simp
    have num: "bDeliveringOrder s' \<Longrightarrow> numbered w \<Longrightarrow> CurrentOrderNumber s' \<noteq> - 1"
      using d by (auto simp: numbered_def list_all_iff)
    have "(\<forall>w. P w \<longrightarrow> numbered w) \<longrightarrow> bDeliveringOrder s' \<longrightarrow> CurrentOrderNumber s' \<noteq> - 1"
      using num reachable_tick.hyps(2) by blast
    moreover have "\<not> bDeliveringOrder s' \<longrightarrow> CurrentOrderNumber s' = - 1"
      using d old by auto
    moreover have "bDeliveringOrder s' \<longrightarrow> CurrentDestination s' \<noteq> None"
      using d by auto
    ultimately show ?thesis by blast
  qed
qed

theorem phase_invariant_witness:
  "reachable numbered (enRoute 7 (100, 0, 0) 0) \<and>
   bDeliveringOrder (enRoute 7 (100, 0, 0) 0) \<and>
   CurrentDestination (enRoute 7 (100, 0, 0) 0) \<noteq> None \<and>
   CurrentOrderNumber (enRoute 7 (100, 0, 0) 0) \<noteq> - 1"
proof -
  have t1: "Tick calmWorld grabbing init_state =
      Inr (enRoute 7 (100, 0, 0) 0, [SetNewMoveDestination (100, 0, 0)])"
    by (simp add: tick_defs example_defs)
  have n: "numbered calmWorld" by (simp add: numbered_def example_defs)
  have r: "reachable numbered (enRoute 7 (100, 0, 0) 0)"
    by (rule reachable_tick[where P = numbered, OF reachable_init n t1])
  have b: "bDeliveringOrder (enRoute 7 (100, 0, 0) 0)" by (simp add: enRoute_def)
  from phase_invariant[OF r] b
  have "CurrentDestination (enRoute 7 (100, 0, 0) 0) \<noteq> None \<and>
        CurrentOrderNumber (enRoute 7 (100, 0, 0) 0) \<noteq> - 1"
    by blast
  then show ?thesis using r b by simp
qed

subsection \<open>The tick of a delivery\<close>

text \<open>
  C4. An EnRoute tick at distance at most 300 whose delivery succeeds (the world after the
  delivery has its house numbers in range) ends Idle with no active order, and its
  urgency level is Committed if some order pending after the delivery has a house that
  still waits and whose distance is equal to the distance measured at the start of the
  tick, and Normal otherwise.
\<close>

theorem recommit_after_delivery:
  assumes "bDeliveringOrder s" and "CurrentDestination s = Some dest"
    and "GetDistanceToDestination w dest \<le> 300"
    and "TryDeliverPizza a (CurrentOrderNumber s) = (True, w')"
    and "validWorld w'"
  shows "Tick w a s =
           Inr (s\<lparr>bDeliveringOrder := False, CurrentOrderNumber := - 1,
                  terribleStatus :=
                    (if coLocated w' (GetDistanceToDestination w dest) then 2 else 0)\<rparr>,
                [TryDeliverPizzaCall (CurrentOrderNumber s)])"
  using tickDelivering_valid[OF assms(2) assms(4), of w] assms(1,3,5)
  by (simp add: Tick_def Let_def)

theorem recommit_after_delivery_witness:
  "bDeliveringOrder (enRoute 7 (100, 0, 0) 1) \<and>
   CurrentDestination (enRoute 7 (100, 0, 0) 1) = Some (100, 0, 0) \<and>
   GetDistanceToDestination calmWorld (100, 0, 0) \<le> 300 \<and>
   TryDeliverPizza (delivering afterSevenTwin) (CurrentOrderNumber (enRoute 7 (100, 0, 0) 1))
     = (True, afterSevenTwin) \<and>
   validWorld afterSevenTwin \<and> coLocated afterSevenTwin 100 \<and>
   Tick calmWorld (delivering afterSevenTwin) (enRoute 7 (100, 0, 0) 1) =
     Inr (idle (Some (100, 0, 0)) 2, [TryDeliverPizzaCall 7])"
proof -
  have h1: "bDeliveringOrder (enRoute 7 (100, 0, 0) 1)" by (simp add: enRoute_def)
  have h2: "CurrentDestination (enRoute 7 (100, 0, 0) 1) = Some (100, 0, 0)"
    by (simp add: enRoute_def)
  have h3: "GetDistanceToDestination calmWorld (100, 0, 0) \<le> 300"
    by (simp add: calmWorld_def)
  have h4: "TryDeliverPizza (delivering afterSevenTwin)
              (CurrentOrderNumber (enRoute 7 (100, 0, 0) 1)) = (True, afterSevenTwin)"
    by (simp add: delivering_def)
  have h5: "validWorld afterSevenTwin"
    by (simp add: validWorld_def validOrders_def example_defs)
  have co: "coLocated afterSevenTwin 100"
    by (simp add: coLocated_def distanceOf_def example_defs)
  from recommit_after_delivery[OF h1 h2 h3 h4 h5] co
  have "Tick calmWorld (delivering afterSevenTwin) (enRoute 7 (100, 0, 0) 1) =
     Inr (idle (Some (100, 0, 0)) 2, [TryDeliverPizzaCall 7])"
    by (simp add: enRoute_def idle_def calmWorld_def)
  then show ?thesis using h1 h2 h3 h4 h5 co by simp
qed

text \<open>
  C5, as stated, fails at the boundary: the promotion is guarded by
  \<^verbatim>\<open>Distance < 300.0f\<close>. At distance 300 exactly the delivery is attempted and the
  urgency level stays Flagged.
\<close>

theorem boundary_promotion_counterexample:
  "GetDistanceToDestination calmWorld (300, 0, 0) = 300 \<and>
   Tick calmWorld refusing
     \<lparr>bDeliveringOrder = True, CurrentOrderNumber = 7,
      CurrentDestination = Some (300, 0, 0), terribleStatus = 1\<rparr> =
     Inr (\<lparr>bDeliveringOrder = True, CurrentOrderNumber = 7,
           CurrentDestination = Some (300, 0, 0), terribleStatus = 1\<rparr>,
          [TryDeliverPizzaCall 7, SetNewMoveDestination (300, 0, 0)])"
  by (simp add: tick_defs example_defs)

text \<open>
  C5, amended. On an EnRoute tick with urgency Flagged and a measured distance of at most
  300, the delivery is attempted from a state whose urgency level is Committed when the
  distance is strictly below 300, and still Flagged when the distance is 300 exactly:
  the promotion is made before the attempt, and only strictly below 300. When the attempt
  fails the tick ends in that state; when it succeeds the urgency level is set anew
  (Normal, or Committed by the re-scan, see C4).
\<close>

theorem proximity_promotion:
  assumes "bDeliveringOrder s" and "CurrentDestination s = Some dest"
    and "GetDistanceToDestination w dest \<le> 300"
    and "terribleStatus s = 1"
  shows "(let Distance = GetDistanceToDestination w dest;
              s1 = s\<lparr>terribleStatus := (if Distance < 300 then 2 else 1)\<rparr>
          in Tick w a s = attemptDelivery w a dest Distance s1 \<and>
             (\<forall>w'. TryDeliverPizza a (CurrentOrderNumber s) = (False, w') \<longrightarrow>
                Tick w a s =
                  Inr (s1, [TryDeliverPizzaCall (CurrentOrderNumber s),
                            SetNewMoveDestination dest])) \<and>
             (\<forall>w'. TryDeliverPizza a (CurrentOrderNumber s) = (True, w') \<and> validWorld w' \<longrightarrow>
                Tick w a s =
                  Inr (s\<lparr>bDeliveringOrder := False, CurrentOrderNumber := - 1,
                         terribleStatus := (if coLocated w' Distance then 2 else 0)\<rparr>,
                       [TryDeliverPizzaCall (CurrentOrderNumber s)])))"
proof -
  let ?D = "GetDistanceToDestination w dest"
  let ?s1 = "s\<lparr>terribleStatus := (if ?D < 300 then 2 else 1)\<rparr>"
  have p: "promoteOnArrival ?D s = ?s1"
    using assms(4) by (cases s) (simp add: promoteOnArrival_def)
  have t: "Tick w a s = attemptDelivery w a dest ?D ?s1"
    using assms(1,2,3) p by (simp add: Tick_def tickDelivering_def Let_def)
  have f: "\<forall>w'. TryDeliverPizza a (CurrentOrderNumber s) = (False, w') \<longrightarrow>
                Tick w a s =
                  Inr (?s1, [TryDeliverPizzaCall (CurrentOrderNumber s),
                            SetNewMoveDestination dest])"
  proof (intro allI impI)
    fix w' assume d: "TryDeliverPizza a (CurrentOrderNumber s) = (False, w')"
    from tickDelivering_valid[OF assms(2) d, of w] assms(1,3,4)
    show "Tick w a s =
                  Inr (?s1, [TryDeliverPizzaCall (CurrentOrderNumber s),
                            SetNewMoveDestination dest])"
      by (simp add: Tick_def Let_def)
  qed
  have g: "\<forall>w'. TryDeliverPizza a (CurrentOrderNumber s) = (True, w') \<and> validWorld w' \<longrightarrow>
                Tick w a s =
                  Inr (s\<lparr>bDeliveringOrder := False, CurrentOrderNumber := - 1,
                         terribleStatus := (if coLocated w' ?D then 2 else 0)\<rparr>,
                       [TryDeliverPizzaCall (CurrentOrderNumber s)])"
  proof (intro allI impI)
    fix w' assume d: "TryDeliverPizza a (CurrentOrderNumber s) = (True, w') \<and> validWorld w'"
    then have d1: "TryDeliverPizza a (CurrentOrderNumber s) = (True, w')"
      and d2: "True \<longrightarrow> validWorld w'" by simp_all
    from tickDelivering_valid[OF assms(2) d1 d2, of w] assms(1,3)
    show "Tick w a s =
                  Inr (s\<lparr>bDeliveringOrder := False, CurrentOrderNumber := - 1,
                         terribleStatus := (if coLocated w' ?D then 2 else 0)\<rparr>,
                       [TryDeliverPizzaCall (CurrentOrderNumber s)])"
      by (simp add: Tick_def Let_def)
  qed
  show ?thesis unfolding Let_def using t f g by blast
qed

theorem proximity_promotion_witness:
  "bDeliveringOrder (enRoute 8 (200, 0, 0) 1) \<and>
   CurrentDestination (enRoute 8 (200, 0, 0) 1) = Some (200, 0, 0) \<and>
   GetDistanceToDestination calmWorld (200, 0, 0) \<le> 300 \<and>
   terribleStatus (enRoute 8 (200, 0, 0) 1) = 1 \<and>
   Tick calmWorld refusing (enRoute 8 (200, 0, 0) 1) =
     attemptDelivery calmWorld refusing (200, 0, 0) 200 (enRoute 8 (200, 0, 0) 2) \<and>
   Tick calmWorld refusing (enRoute 8 (200, 0, 0) 1) =
     Inr (enRoute 8 (200, 0, 0) 2, [TryDeliverPizzaCall 8, SetNewMoveDestination (200, 0, 0)]) \<and>
   Tick calmWorld (delivering afterSevenTwin) (enRoute 8 (200, 0, 0) 1) =
     Inr (idle (Some (200, 0, 0)) 0, [TryDeliverPizzaCall 8])"
proof -
  have h1: "bDeliveringOrder (enRoute 8 (200, 0, 0) 1)" by (simp add: enRoute_def)
  have h2: "CurrentDestination (enRoute 8 (200, 0, 0) 1) = Some (200, 0, 0)"
    by (simp add: enRoute_def)
  have h3: "GetDistanceToDestination calmWorld (200, 0, 0) \<le> 300"
    by (simp add: calmWorld_def)
  have h4: "terribleStatus (enRoute 8 (200, 0, 0) 1) = 1" by (simp add: enRoute_def)
  have r: "TryDeliverPizza refusing (CurrentOrderNumber (enRoute 8 (200, 0, 0) 1))
              = (False, calmWorld)"
    by (simp add: refusing_def)
  have d: "TryDeliverPizza (delivering afterSevenTwin) (CurrentOrderNumber (enRoute 8 (200, 0, 0) 1))
              = (True, afterSevenTwin)"
    by (simp add: delivering_def)
  have v: "validWorld afterSevenTwin"
    by (simp add: validWorld_def validOrders_def example_defs)
  have nc: "\<not> coLocated afterSevenTwin 200"
    by (simp add: coLocated_def distanceOf_def example_defs)
  have dist: "GetDistanceToDestination calmWorld (200, 0, 0) = 200" by (simp add: calmWorld_def)
  have s1: "(enRoute 8 (200, 0, 0) 1)\<lparr>terribleStatus := 2\<rparr> = enRoute 8 (200, 0, 0) 2"
    by (simp add: enRoute_def)
  have n: "CurrentOrderNumber (enRoute 8 (200, 0, 0) 1) = 8" by (simp add: enRoute_def)
  have i: "(enRoute 8 (200, 0, 0) 1)\<lparr>bDeliveringOrder := False, CurrentOrderNumber := - 1,
             terribleStatus := 0\<rparr> = idle (Some (200, 0, 0)) 0"
    by (simp add: enRoute_def idle_def)
  note pr = proximity_promotion[OF h1 h2 h3 h4, of refusing, unfolded Let_def dist]
  note pd = proximity_promotion[OF h1 h2 h3 h4, of "delivering afterSevenTwin",
      unfolded Let_def dist]
  have a: "Tick calmWorld refusing (enRoute 8 (200, 0, 0) 1) =
     attemptDelivery calmWorld refusing (200, 0, 0) 200 (enRoute 8 (200, 0, 0) 2)"
    using conjunct1[OF pr] by (simp add: s1)
  have b: "Tick calmWorld refusing (enRoute 8 (200, 0, 0) 1) =
     Inr (enRoute 8 (200, 0, 0) 2, [TryDeliverPizzaCall 8, SetNewMoveDestination (200, 0, 0)])"
    using conjunct1[OF conjunct2[OF pr], rule_format, OF r] by (simp add: s1 n)
  have dv: "TryDeliverPizza (delivering afterSevenTwin)
              (CurrentOrderNumber (enRoute 8 (200, 0, 0) 1)) = (True, afterSevenTwin) \<and>
            validWorld afterSevenTwin"
    using d v by simp
  have c: "Tick calmWorld (delivering afterSevenTwin) (enRoute 8 (200, 0, 0) 1) =
     Inr (idle (Some (200, 0, 0)) 0, [TryDeliverPizzaCall 8])"
    using conjunct2[OF conjunct2[OF pd], rule_format, OF dv] nc by (simp add: n i)
  show ?thesis using h1 h2 h3 h4 a b c by simp
qed

text \<open>
  C6, as stated, fails: the destination is not unset. With distance 50, a successful
  delivery and no pending order at that distance, the tick ends Idle with urgency
  Normal and no active order, and the destination is still the point delivered to.
\<close>

theorem completion_counterexample:
  "GetDistanceToDestination calmWorld (50, 0, 0) = 50 \<and>
   TryDeliverPizza (delivering afterSeven) 7 = (True, afterSeven) \<and>
   coLocated afterSeven 50 = False \<and>
   Tick calmWorld (delivering afterSeven)
     \<lparr>bDeliveringOrder = True, CurrentOrderNumber = 7,
      CurrentDestination = Some (50, 0, 0), terribleStatus = 0\<rparr> =
     Inr (\<lparr>bDeliveringOrder = False, CurrentOrderNumber = - 1,
           CurrentDestination = Some (50, 0, 0), terribleStatus = 0\<rparr>,
          [TryDeliverPizzaCall 7])"
  by (simp add: tick_defs coLocated_def distanceOf_def example_defs)

text \<open>
  C6, amended. An EnRoute tick at distance at most 300 whose delivery succeeds, with no
  order pending afterwards whose waiting house lies at the measured distance, ends with
  phase Idle, no active order and urgency Normal; the destination keeps its value.
\<close>

theorem completion_clears_state:
  assumes "bDeliveringOrder s" and "CurrentDestination s = Some dest"
    and "GetDistanceToDestination w dest \<le> 300"
    and "TryDeliverPizza a (CurrentOrderNumber s) = (True, w')"
    and "validWorld w'"
    and "\<not> coLocated w' (GetDistanceToDestination w dest)"
  shows "\<exists>s'. Tick w a s = Inr (s', [TryDeliverPizzaCall (CurrentOrderNumber s)]) \<and>
           \<not> bDeliveringOrder s' \<and> CurrentOrderNumber s' = - 1 \<and> terribleStatus s' = 0 \<and>
           CurrentDestination s' = Some dest"
  using tickDelivering_valid[OF assms(2) assms(4), of w] assms(1,2,3,5,6)
  by (simp add: Tick_def Let_def)

theorem completion_clears_state_witness:
  "bDeliveringOrder (enRoute 7 (50, 0, 0) 2) \<and>
   CurrentDestination (enRoute 7 (50, 0, 0) 2) = Some (50, 0, 0) \<and>
   GetDistanceToDestination calmWorld (50, 0, 0) \<le> 300 \<and>
   TryDeliverPizza (delivering afterSeven) (CurrentOrderNumber (enRoute 7 (50, 0, 0) 2))
     = (True, afterSeven) \<and>
   validWorld afterSeven \<and> coLocated afterSeven (GetDistanceToDestination calmWorld (50, 0, 0)) = False \<and>
   Tick calmWorld (delivering afterSeven) (enRoute 7 (50, 0, 0) 2) =
     Inr (idle (Some (50, 0, 0)) 0, [TryDeliverPizzaCall 7])"
proof -
  have h1: "bDeliveringOrder (enRoute 7 (50, 0, 0) 2)" by (simp add: enRoute_def)
  have h2: "CurrentDestination (enRoute 7 (50, 0, 0) 2) = Some (50, 0, 0)"
    by (simp add: enRoute_def)
  have h3: "GetDistanceToDestination calmWorld (50, 0, 0) \<le> 300"
    by (simp add: calmWorld_def)
  have h4: "TryDeliverPizza (delivering afterSeven) (CurrentOrderNumber (enRoute 7 (50, 0, 0) 2))
              = (True, afterSeven)"
    by (simp add: delivering_def)
  have h5: "validWorld afterSeven"
    by (simp add: validWorld_def validOrders_def example_defs)
  have h6: "\<not> coLocated afterSeven (GetDistanceToDestination calmWorld (50, 0, 0))"
    by (simp add: coLocated_def distanceOf_def example_defs)
  from completion_clears_state[OF h1 h2 h3 h4 h5 h6] obtain s' where
    t: "Tick calmWorld (delivering afterSeven) (enRoute 7 (50, 0, 0) 2) =
          Inr (s', [TryDeliverPizzaCall (CurrentOrderNumber (enRoute 7 (50, 0, 0) 2))])"
    and f: "\<not> bDeliveringOrder s'" "CurrentOrderNumber s' = - 1" "terribleStatus s' = 0"
       "CurrentDestination s' = Some (50, 0, 0)"
    by blast
  have "s' = idle (Some (50, 0, 0)) 0"
    using f by (cases s') (simp add: idle_def)
  then show ?thesis using t h1 h2 h3 h4 h5 h6 by (simp add: enRoute_def)
qed

text \<open>
  C9, as stated, fails: the urgency level can change on a tick whose delivery fails. At
  distance 100 with urgency Flagged, the tick ends with urgency Committed.
\<close>

theorem retry_promotes_counterexample:
  "GetDistanceToDestination calmWorld (100, 0, 0) = 100 \<and>
   TryDeliverPizza refusing 7 = (False, calmWorld) \<and>
   Tick calmWorld refusing
     \<lparr>bDeliveringOrder = True, CurrentOrderNumber = 7,
      CurrentDestination = Some (100, 0, 0), terribleStatus = 1\<rparr> =
     Inr (\<lparr>bDeliveringOrder = True, CurrentOrderNumber = 7,
           CurrentDestination = Some (100, 0, 0), terribleStatus = 2\<rparr>,
          [TryDeliverPizzaCall 7, SetNewMoveDestination (100, 0, 0)])"
  by (simp add: tick_defs example_defs)

text \<open>
  C9, amended. An EnRoute tick at distance at most 300 whose delivery fails issues the
  delivery attempt and then a move towards the destination; the phase stays EnRoute, the
  active order and the destination are unchanged, and the urgency level is unchanged
  except that Flagged becomes Committed when the distance is strictly below 300.
\<close>

theorem delivery_retry:
  assumes "bDeliveringOrder s" and "CurrentDestination s = Some dest"
    and "GetDistanceToDestination w dest \<le> 300"
    and "TryDeliverPizza a (CurrentOrderNumber s) = (False, w')"
  shows "\<exists>s'. Tick w a s =
             Inr (s', [TryDeliverPizzaCall (CurrentOrderNumber s), SetNewMoveDestination dest]) \<and>
           bDeliveringOrder s' \<and> CurrentOrderNumber s' = CurrentOrderNumber s \<and>
           CurrentDestination s' = Some dest \<and>
           terribleStatus s' =
             (if terribleStatus s = 1 \<and> GetDistanceToDestination w dest < 300 then 2
              else terribleStatus s)"
  using tickDelivering_valid[OF assms(2) assms(4), of w] assms(1,2,3)
  by (simp add: Tick_def Let_def)

theorem delivery_retry_witness:
  "bDeliveringOrder (enRoute 7 (100, 0, 0) 0) \<and>
   CurrentDestination (enRoute 7 (100, 0, 0) 0) = Some (100, 0, 0) \<and>
   GetDistanceToDestination calmWorld (100, 0, 0) \<le> 300 \<and>
   TryDeliverPizza refusing (CurrentOrderNumber (enRoute 7 (100, 0, 0) 0)) = (False, calmWorld) \<and>
   Tick calmWorld refusing (enRoute 7 (100, 0, 0) 0) =
     Inr (enRoute 7 (100, 0, 0) 0, [TryDeliverPizzaCall 7, SetNewMoveDestination (100, 0, 0)])"
proof -
  have h1: "bDeliveringOrder (enRoute 7 (100, 0, 0) 0)" by (simp add: enRoute_def)
  have h2: "CurrentDestination (enRoute 7 (100, 0, 0) 0) = Some (100, 0, 0)"
    by (simp add: enRoute_def)
  have h3: "GetDistanceToDestination calmWorld (100, 0, 0) \<le> 300"
    by (simp add: calmWorld_def)
  have h4: "TryDeliverPizza refusing (CurrentOrderNumber (enRoute 7 (100, 0, 0) 0))
              = (False, calmWorld)"
    by (simp add: refusing_def)
  from delivery_retry[OF h1 h2 h3 h4] obtain s' where
    t: "Tick calmWorld refusing (enRoute 7 (100, 0, 0) 0) =
          Inr (s', [TryDeliverPizzaCall (CurrentOrderNumber (enRoute 7 (100, 0, 0) 0)),
                    SetNewMoveDestination (100, 0, 0)])"
    and f: "bDeliveringOrder s'"
       "CurrentOrderNumber s' = CurrentOrderNumber (enRoute 7 (100, 0, 0) 0)"
       "CurrentDestination s' = Some (100, 0, 0)"
       "terribleStatus s' =
          (if terribleStatus (enRoute 7 (100, 0, 0) 0) = 1 \<and>
              GetDistanceToDestination calmWorld (100, 0, 0) < 300 then 2
           else terribleStatus (enRoute 7 (100, 0, 0) 0))"
    by blast
  have "s' = enRoute 7 (100, 0, 0) 0"
    using f by (cases s') (simp add: enRoute_def)
  then show ?thesis using t h1 h2 h3 h4 by (simp add: enRoute_def)
qed

subsection \<open>Array accesses and calls of a tick\<close>

lemma Tick_returns:
  assumes "validWorld w"
    and "fst (TryDeliverPizza a (CurrentOrderNumber s)) \<longrightarrow>
         validWorld (snd (TryDeliverPizza a (CurrentOrderNumber s)))"
    and "bDeliveringOrder s \<longrightarrow> CurrentDestination s \<noteq> None"
  shows "\<exists>r. Tick w a s = Inr r"
proof (cases "bDeliveringOrder s")
  case True
  then obtain dest where d: "CurrentDestination s = Some dest" using assms(3) by auto
  obtain ok w' where t: "TryDeliverPizza a (CurrentOrderNumber s) = (ok, w')"
    by (cases "TryDeliverPizza a (CurrentOrderNumber s)")
  have v: "ok \<longrightarrow> validWorld w'" using assms(2) t by simp
  show ?thesis
    using tickDelivering_valid[OF d t v, of w] True by (simp add: Tick_def Let_def)
next
  case False
  show ?thesis
  proof (cases "GetPizzaOrders w = []")
    case True
    then show ?thesis using False by (simp add: Tick_def tickIdle_def)
  next
    case ne: False
    from tickIdle_valid[OF ne assms(1), of a s] show ?thesis
      using False by (auto simp: Tick_def Let_def)
  qed
qed


text \<open>
  C10. When every pending order's house number is an index of the house-location table,
  in the world of the tick and, after a successful delivery, in the world the tick then
  queries, no array access of the tick is out of range: the tick never ends in
  \<open>IndexOutOfBounds\<close>, and from a state whose destination has been assigned when the
  phase is EnRoute (every reachable state, see C3) it returns a state. The time left
  at a house is a call into the base class, not an array access of the controller.
\<close>

theorem lookups_in_bounds:
  assumes "validWorld w"
    and "fst (TryDeliverPizza a (CurrentOrderNumber s)) \<longrightarrow>
         validWorld (snd (TryDeliverPizza a (CurrentOrderNumber s)))"
  shows "Tick w a s \<noteq> Inl IndexOutOfBounds \<and>
         ((bDeliveringOrder s \<longrightarrow> CurrentDestination s \<noteq> None) \<longrightarrow> (\<exists>r. Tick w a s = Inr r))"
proof (cases "bDeliveringOrder s \<longrightarrow> CurrentDestination s \<noteq> None")
  case True
  from Tick_returns[OF assms True] show ?thesis by auto
next
  case False
  then have b: "bDeliveringOrder s" and n: "CurrentDestination s = None" by blast+
  have "Tick w a s = Inl UninitialisedDestination"
    using b n by (simp add: Tick_def tickDelivering_def)
  then show ?thesis using b n by simp
qed

theorem lookups_in_bounds_witness:
  "validWorld hungryWorld \<and> validWorld afterSevenTwin \<and>
   Tick hungryWorld grabbing init_state \<noteq> Inl IndexOutOfBounds \<and>
   Tick calmWorld (delivering afterSevenTwin) (enRoute 7 (100, 0, 0) 0) \<noteq> Inl IndexOutOfBounds"
proof -
  have v1: "validWorld hungryWorld" by (simp add: validWorld_def validOrders_def example_defs)
  have v2: "validWorld calmWorld" by (simp add: validWorld_def validOrders_def example_defs)
  have v3: "validWorld afterSevenTwin" by (simp add: validWorld_def validOrders_def example_defs)
  have p1: "fst (TryDeliverPizza grabbing (CurrentOrderNumber init_state)) \<longrightarrow>
         validWorld (snd (TryDeliverPizza grabbing (CurrentOrderNumber init_state)))"
    by (simp add: grabbing_def)
  have p2: "fst (TryDeliverPizza (delivering afterSevenTwin)
                  (CurrentOrderNumber (enRoute 7 (100, 0, 0) 0))) \<longrightarrow>
         validWorld (snd (TryDeliverPizza (delivering afterSevenTwin)
                  (CurrentOrderNumber (enRoute 7 (100, 0, 0) 0))))"
    using v3 by (simp add: delivering_def)
  show ?thesis
    using lookups_in_bounds[OF v1 p1] lookups_in_bounds[OF v2 p2] v1 v3 by simp
qed




end
